theory Spec2Isabelle
  imports Complex_Main "HOL-Library.Multiset"
begin

section \<open>The relational store: DinnerGroup and Attendee rows\<close>

text \<open>
  The service in \<^verbatim>\<open>app/utils/restaurants.server.ts\<close> keeps its state in two tables
  reached through the Prisma client. A table is the list of its rows, in insertion
  order. Row identifiers are generated strings in the source (\<^verbatim>\<open>cuid()\<close>); only
  their equality and their freshness matter, so they are natural numbers drawn from a
  counter that never goes back: an identifier is never handed out twice, also not
  after its row has been deleted.
\<close>

record dinnerGroup =
  group_id :: nat
  restaurantId :: string

record attendee =
  attendee_id :: nat
  userId :: string
  dinnerGroupId :: nat

record store =
  dinnerGroups :: "dinnerGroup list"
  attendees :: "attendee list"
  nextId :: nat

text \<open>
  What a Prisma call can throw in the functions below: deleting a row that does not
  exist, creating a second row for a column declared unique (the source looks
  DinnerGroups up with \<^verbatim>\<open>findUnique({ where: { restaurantId } })\<close>, which Prisma only
  accepts for a unique column), and the JavaScript \<^verbatim>\<open>TypeError\<close> of reading a property
  of \<^verbatim>\<open>null\<close>.
\<close>

datatype error =
    RecordNotFound
  | UniqueConstraintFailed
  | TypeError
  | InvariantFailed string
  | PlacesApiError string

definition empty_store :: store where
  "empty_store = \<lparr>dinnerGroups = [], attendees = [], nextId = 0\<rparr>"

subsection \<open>The Prisma calls the service makes\<close>

text \<open>\<^verbatim>\<open>prisma.attendee.findFirst({ where: { userId }, include: { dinnerGroup: true } })\<close>:
  the first row of the user, together with the DinnerGroup row its foreign key names
  (\<open>None\<close> when no such row exists).\<close>

definition attendee_findFirst :: "string \<Rightarrow> store \<Rightarrow> (attendee \<times> dinnerGroup option) option" where
  "attendee_findFirst uid s =
     (case find (\<lambda>a. userId a = uid) (attendees s) of
        None \<Rightarrow> None
      | Some a \<Rightarrow> Some (a, find (\<lambda>g. group_id g = dinnerGroupId a) (dinnerGroups s)))"

text \<open>\<^verbatim>\<open>prisma.attendee.delete({ where: { id } })\<close>\<close>

definition attendee_delete :: "nat \<Rightarrow> store \<Rightarrow> error + store" where
  "attendee_delete aid s =
     (if aid \<in> set (map attendee_id (attendees s))
      then Inr (s\<lparr>attendees := filter (\<lambda>a. attendee_id a \<noteq> aid) (attendees s)\<rparr>)
      else Inl RecordNotFound)"

text \<open>\<^verbatim>\<open>prisma.attendee.count({ where: { dinnerGroupId } })\<close>\<close>

definition attendee_count :: "nat \<Rightarrow> store \<Rightarrow> nat" where
  "attendee_count gid s = length (filter (\<lambda>a. dinnerGroupId a = gid) (attendees s))"

text \<open>\<^verbatim>\<open>prisma.dinnerGroup.delete({ where: { id } })\<close>\<close>

definition dinnerGroup_delete :: "nat \<Rightarrow> store \<Rightarrow> error + store" where
  "dinnerGroup_delete gid s =
     (if gid \<in> set (map group_id (dinnerGroups s))
      then Inr (s\<lparr>dinnerGroups := filter (\<lambda>g. group_id g \<noteq> gid) (dinnerGroups s)\<rparr>)
      else Inl RecordNotFound)"

text \<open>\<^verbatim>\<open>prisma.dinnerGroup.findUnique({ where: { restaurantId } })\<close>\<close>

definition dinnerGroup_findUnique :: "string \<Rightarrow> store \<Rightarrow> dinnerGroup option" where
  "dinnerGroup_findUnique rid s = find (\<lambda>g. restaurantId g = rid) (dinnerGroups s)"

text \<open>\<^verbatim>\<open>prisma.dinnerGroup.create({ data: { restaurantId } })\<close>\<close>

definition dinnerGroup_create :: "string \<Rightarrow> store \<Rightarrow> error + (dinnerGroup \<times> store)" where
  "dinnerGroup_create rid s =
     (if rid \<in> set (map restaurantId (dinnerGroups s)) then Inl UniqueConstraintFailed
      else
        let g = \<lparr>group_id = nextId s, restaurantId = rid\<rparr>
        in Inr (g, s\<lparr>dinnerGroups := dinnerGroups s @ [g], nextId := Suc (nextId s)\<rparr>))"

text \<open>\<^verbatim>\<open>prisma.attendee.create({ data: { userId, dinnerGroupId } })\<close>\<close>

definition attendee_create :: "string \<Rightarrow> nat \<Rightarrow> store \<Rightarrow> error + (attendee \<times> store)" where
  "attendee_create uid gid s =
     (let a = \<lparr>attendee_id = nextId s, userId = uid, dinnerGroupId = gid\<rparr>
      in Inr (a, s\<lparr>attendees := attendees s @ [a], nextId := Suc (nextId s)\<rparr>))"

subsection \<open>leaveDinnerGroup and joinDinnerGroup\<close>

text \<open>
  \<^verbatim>\<open>leaveDinnerGroup({ userId })\<close> returns \<^verbatim>\<open>null\<close> (\<open>None\<close>) when the user has no
  Attendee row, and the restaurant id of the group that was left otherwise. Each
  \<^verbatim>\<open>await\<close> is one step on the store; a throw is \<open>Inl\<close>.
\<close>

definition leaveDinnerGroup :: "string \<Rightarrow> store \<Rightarrow> error + (string option \<times> store)" where
  "leaveDinnerGroup uid s =
     (case attendee_findFirst uid s of
        None \<Rightarrow> Inr (None, s)
      | Some (a, grp) \<Rightarrow>
          (case attendee_delete (attendee_id a) s of
             Inl e \<Rightarrow> Inl e
           | Inr s1 \<Rightarrow>
               let remainingAttendees = attendee_count (dinnerGroupId a) s1 in
               (case (if remainingAttendees = 0
                      then dinnerGroup_delete (dinnerGroupId a) s1
                      else Inr s1) of
                  Inl e \<Rightarrow> Inl e
                | Inr s2 \<Rightarrow>
                    (case grp of
                       None \<Rightarrow> Inl TypeError
                     | Some g \<Rightarrow> Inr (Some (restaurantId g), s2)))))"

definition joinDinnerGroup :: "string \<Rightarrow> string \<Rightarrow> store \<Rightarrow> error + (attendee \<times> store)" where
  "joinDinnerGroup uid rid s =
     (case leaveDinnerGroup uid s of
        Inl e \<Rightarrow> Inl e
      | Inr (left, s1) \<Rightarrow>
          (case (case dinnerGroup_findUnique rid s1 of
                   Some g \<Rightarrow> Inr (g, s1)
                 | None \<Rightarrow> dinnerGroup_create rid s1) of
             Inl e \<Rightarrow> Inl e
           | Inr (dinnerGroup, s2) \<Rightarrow> attendee_create uid (group_id dinnerGroup) s2))"

subsection \<open>States of the store\<close>

text \<open>
  The Attendee rows of a user, the DinnerGroup rows of a restaurant, and the DinnerGroup
  rows without any attendee.
\<close>

definition attendees_of_user :: "string \<Rightarrow> store \<Rightarrow> attendee list" where
  "attendees_of_user uid s = filter (\<lambda>a. userId a = uid) (attendees s)"

definition groups_of_restaurant :: "string \<Rightarrow> store \<Rightarrow> dinnerGroup list" where
  "groups_of_restaurant rid s = filter (\<lambda>g. restaurantId g = rid) (dinnerGroups s)"

definition empty_groups :: "store \<Rightarrow> dinnerGroup list" where
  "empty_groups s = filter (\<lambda>g. attendee_count (group_id g) s = 0) (dinnerGroups s)"

text \<open>
  The integrity the database itself keeps: primary keys are distinct, identifiers in use
  lie below the counter, the restaurant id of a DinnerGroup is unique, and the foreign key
  of every Attendee names an existing DinnerGroup.
\<close>

definition store_wf :: "store \<Rightarrow> bool" where
  "store_wf s \<longleftrightarrow>
     distinct (map group_id (dinnerGroups s)) \<and>
     distinct (map attendee_id (attendees s)) \<and>
     distinct (map restaurantId (dinnerGroups s)) \<and>
     list_all (\<lambda>g. group_id g < nextId s) (dinnerGroups s) \<and>
     list_all (\<lambda>a. attendee_id a < nextId s) (attendees s) \<and>
     list_all (\<lambda>a. dinnerGroupId a \<in> set (map group_id (dinnerGroups s))) (attendees s)"

text \<open>
  The invariants of the data model on top of that: a user has at most one Attendee row,
  and no DinnerGroup is empty.
\<close>

definition store_inv :: "store \<Rightarrow> bool" where
  "store_inv s \<longleftrightarrow>
     store_wf s \<and>
     distinct (map userId (attendees s)) \<and>
     empty_groups s = []"

text \<open>
  The states the service reaches from the empty store when calls run one after the other
  and each call returns.
\<close>

inductive reachable :: "store \<Rightarrow> bool" where
  reachable_empty: "reachable empty_store"
| reachable_join: "reachable s \<Longrightarrow> joinDinnerGroup uid rid s = Inr (a, s') \<Longrightarrow> reachable s'"
| reachable_leave: "reachable s \<Longrightarrow> leaveDinnerGroup uid s = Inr (r, s') \<Longrightarrow> reachable s'"

text \<open>
  Two shapes the proofs below use: the store a successful leave produces when the user's
  first row is \<open>a\<close>, and the find-or-create step in the middle of joinDinnerGroup.
\<close>

definition leave_result :: "attendee \<Rightarrow> store \<Rightarrow> store" where
  "leave_result a s =
     (let rest = filter (\<lambda>b. attendee_id b \<noteq> attendee_id a) (attendees s) in
      s\<lparr>attendees := rest,
        dinnerGroups := (if filter (\<lambda>b. dinnerGroupId b = dinnerGroupId a) rest = []
                         then filter (\<lambda>g. group_id g \<noteq> dinnerGroupId a) (dinnerGroups s)
                         else dinnerGroups s)\<rparr>)"

definition find_or_create :: "string \<Rightarrow> store \<Rightarrow> error + (dinnerGroup \<times> store)" where
  "find_or_create rid s1 =
     (case dinnerGroup_findUnique rid s1 of
        Some g \<Rightarrow> Inr (g, s1)
      | None \<Rightarrow> dinnerGroup_create rid s1)"

section \<open>Restaurants and the page loader's lists\<close>

text \<open>
  A Restaurant row, and \<^verbatim>\<open>RestaurantWithDetails\<close>, which extends it
  (\<^verbatim>\<open>{ ...restaurant, distance, attendeeCount, isUserAttending }\<close>). A JavaScript number
  is a real number here: the functions of this section only compare numbers and take the
  sign of a difference, which is exact on finite doubles. \<^verbatim>\<open>NaN\<close> and the infinities are
  outside the model. A field that may be \<^verbatim>\<open>null\<close> or \<^verbatim>\<open>undefined\<close> is an \<open>option\<close>. An
  attendee count is a count of rows, a natural number.
\<close>

record restaurant =
  restaurant_id :: string
  name :: string
  priceLevel :: "real option"
  rating :: "real option"
  lat :: real
  lng :: real
  photoRef :: "string option"
  mapsUrl :: string

record restaurantWithDetails = restaurant +
  distance :: real
  attendeeCount :: nat
  isUserAttending :: bool

text \<open>
  The parsed query filters of \<^verbatim>\<open>routes/users+/$username_+/restaurants.tsx\<close>:
  \<^verbatim>\<open>FilterParamsSchema.safeParse(...)\<close> either fails (\<open>None\<close>) or gives the three optional
  numbers. \<open>filter_value field filterParams\<close> is the test
  \<^verbatim>\<open>filterParams.success && filterParams.data.field\<close>: the number when the parse succeeded
  and the field is a truthy number, nothing otherwise.
\<close>

record filters =
  filter_distance :: "real option"
  filter_rating :: "real option"
  filter_price :: "real option"

definition filter_value :: "(filters \<Rightarrow> real option) \<Rightarrow> filters option \<Rightarrow> real option" where
  "filter_value field filterParams =
     (case filterParams of
        None \<Rightarrow> None
      | Some data \<Rightarrow>
          (case field data of
             None \<Rightarrow> None
           | Some v \<Rightarrow> if v \<noteq> 0 then Some v else None))"

text \<open>\<^verbatim>\<open>x || 0\<close> on an optional number.\<close>

definition or_zero :: "real option \<Rightarrow> real" where
  "or_zero v = (case v of None \<Rightarrow> 0 | Some x \<Rightarrow> x)"

text \<open>
  \<^verbatim>\<open>Array.prototype.sort(compare)\<close>: a stable sort in which \<open>a\<close> comes before \<open>b\<close> when
  \<open>compare a b\<close> is negative, and elements that compare equal keep their order. It is
  an insertion sort here.
\<close>

fun insert_by :: "('a \<Rightarrow> 'a \<Rightarrow> real) \<Rightarrow> 'a \<Rightarrow> 'a list \<Rightarrow> 'a list" where
  "insert_by cmp x [] = [x]"
| "insert_by cmp x (y # ys) = (if cmp x y \<le> 0 then x # y # ys else y # insert_by cmp x ys)"

definition js_sort :: "('a \<Rightarrow> 'a \<Rightarrow> real) \<Rightarrow> 'a list \<Rightarrow> 'a list" where
  "js_sort cmp xs = foldr (insert_by cmp) xs []"

text \<open>The loader's first list: \<^verbatim>\<open>.filter(r => r.attendeeCount > 0).sort((a, b) => b.attendeeCount - a.attendeeCount)\<close>\<close>

definition restaurantsWithAttendance :: "restaurantWithDetails list \<Rightarrow> restaurantWithDetails list" where
  "restaurantsWithAttendance restaurants =
     js_sort (\<lambda>a b. real (attendeeCount b) - real (attendeeCount a))
       (filter (\<lambda>r. attendeeCount r > 0) restaurants)"

text \<open>The predicate of the second list's \<^verbatim>\<open>.filter\<close>, one \<^verbatim>\<open>return false\<close> per branch.\<close>

definition nearby_filter :: "filters option \<Rightarrow> restaurantWithDetails \<Rightarrow> bool" where
  "nearby_filter filterParams r =
     (if attendeeCount r > 0 then False
      else if (case filter_value filter_distance filterParams of
                 Some d \<Rightarrow> distance r > d
               | None \<Rightarrow> distance r > 1) then False
      else if (case filter_value filter_rating filterParams of
                 Some m \<Rightarrow> or_zero (rating r) = 0 \<or> or_zero (rating r) < m
               | None \<Rightarrow> False) then False
      else if (case filter_value filter_price filterParams of
                 Some p \<Rightarrow> priceLevel r \<noteq> Some p
               | None \<Rightarrow> False) then False
      else True)"

text \<open>The comparator of the second list's \<^verbatim>\<open>.sort\<close>.\<close>

definition nearby_compare :: "restaurantWithDetails \<Rightarrow> restaurantWithDetails \<Rightarrow> real" where
  "nearby_compare a b =
     (let ratingDiff = or_zero (rating b) - or_zero (rating a)
      in if ratingDiff \<noteq> 0 then ratingDiff else distance a - distance b)"

definition restaurantsNearby ::
  "filters option \<Rightarrow> restaurantWithDetails list \<Rightarrow> restaurantWithDetails list" where
  "restaurantsNearby filterParams restaurants =
     take 30 (js_sort nearby_compare (filter (nearby_filter filterParams) restaurants))"

section \<open>Numbers as text\<close>

text \<open>
  Template literals turn a number into text with \<^verbatim>\<open>Number::toString\<close>. For a number with
  a finite decimal expansion, in the range where JavaScript uses plain notation (from
  1e-6 up to, not including, 1e21), that is the sign, the whole part, and the digits after
  the point without trailing zeros. Outside that range JavaScript writes an exponent and
  the function below does not apply.
\<close>

definition digit_char :: "nat \<Rightarrow> char" where
  "digit_char d = ''0123456789'' ! d"

fun nat_toString :: "nat \<Rightarrow> string" where
  "nat_toString n =
     (if n < 10 then [digit_char n] else nat_toString (n div 10) @ [digit_char (n mod 10)])"

declare nat_toString.simps [simp del]

fun fraction_digits :: "nat \<Rightarrow> real \<Rightarrow> string" where
  "fraction_digits 0 x = []"
| "fraction_digits (Suc fuel) x =
     (if x = 0 then []
      else digit_char (nat \<lfloor>x * 10\<rfloor>) # fraction_digits fuel (x * 10 - of_int \<lfloor>x * 10\<rfloor>))"

definition number_toString :: "real \<Rightarrow> string" where
  "number_toString x =
     (let m = \<bar>x\<bar>; whole = nat \<lfloor>m\<rfloor>; part = m - of_int \<lfloor>m\<rfloor>
      in (if x < 0 then ''-'' else []) @ nat_toString whole @
         (if part = 0 then [] else ''.'' @ fraction_digits 20 part))"

section \<open>The Places provider\<close>

text \<open>
  \<^verbatim>\<open>getNearbyRestaurants\<close> makes one nearby-search request and one details request per
  result. The two JSON responses are data here; of a nearby result the function reads
  only \<^verbatim>\<open>place_id\<close>, of a photo only \<^verbatim>\<open>photo_reference\<close>. What the remote service answers
  is a parameter: the environment holds the API key of \<^verbatim>\<open>process.env\<close> and the answer to
  each request. Every request is answered here: a request that fails on the network, a
  body that is not JSON and a details result without geometry make the source throw at
  the \<^verbatim>\<open>await\<close> or the property read, and are outside the model. The theorems
  below therefore say when the function throws because of a status, never that it throws
  in no other case.
\<close>

record nearbyPlace =
  place_id :: string

record nearbyResponse =
  nearby_status :: string
  nearby_results :: "nearbyPlace list option"

record placeResult =
  result_place_id :: string
  result_name :: string
  price_level :: "real option"
  result_rating :: "real option"
  location_lat :: real
  location_lng :: real
  photos :: "string list option"
  url :: "string option"

record detailsResponse =
  details_status :: string
  details_result :: "placeResult option"

record places_env =
  GOOGLE_PLACES_API_KEY :: "string option"
  nearbySearch :: "real \<Rightarrow> real \<Rightarrow> real \<Rightarrow> nearbyResponse"
  placeDetails :: "string \<Rightarrow> detailsResponse"

text \<open>The callback of \<^verbatim>\<open>nearbyData.results.map\<close>: the restaurant of one place, or \<^verbatim>\<open>null\<close>.\<close>

definition place_restaurant :: "places_env \<Rightarrow> nearbyPlace \<Rightarrow> restaurant option" where
  "place_restaurant env place =
     (let placeId = place_id place;
          detailsData = placeDetails env placeId
      in if details_status detailsData \<noteq> ''OK'' then None
         else
           (case details_result detailsData of
              None \<Rightarrow> None
            | Some result \<Rightarrow>
                let photoRef = (case photos result of Some (photo # rest) \<Rightarrow> Some photo | _ \<Rightarrow> None);
                    fallback = ''https://maps.google.com/?q='' @ number_toString (location_lat result)
                                 @ '','' @ number_toString (location_lng result)
                in Some \<lparr>restaurant_id = result_place_id result,
                         name = result_name result,
                         priceLevel = price_level result,
                         rating = result_rating result,
                         lat = location_lat result,
                         lng = location_lng result,
                         photoRef = photoRef,
                         mapsUrl = (case url result of
                                      Some u \<Rightarrow> if u \<noteq> [] then u else fallback
                                    | None \<Rightarrow> fallback)\<rparr>))"

text \<open>\<^verbatim>\<open>.filter(Boolean)\<close> on a list of objects and \<^verbatim>\<open>null\<close>s.\<close>

fun filter_Boolean :: "'a option list \<Rightarrow> 'a list" where
  "filter_Boolean [] = []"
| "filter_Boolean (None # xs) = filter_Boolean xs"
| "filter_Boolean (Some x # xs) = x # filter_Boolean xs"

definition getNearbyRestaurants ::
  "places_env \<Rightarrow> real \<Rightarrow> real \<Rightarrow> real option \<Rightarrow> error + restaurant list" where
  "getNearbyRestaurants env qlat qlng radius_arg =
     (let radius = (case radius_arg of None \<Rightarrow> 1600 | Some r \<Rightarrow> r)
      in case GOOGLE_PLACES_API_KEY env of
           None \<Rightarrow> Inl (InvariantFailed ''GOOGLE_PLACES_API_KEY must be set'')
         | Some apiKey \<Rightarrow>
             if apiKey = [] then Inl (InvariantFailed ''GOOGLE_PLACES_API_KEY must be set'')
             else
               let nearbyData = nearbySearch env qlat qlng radius
               in if nearby_status nearbyData \<noteq> ''OK'' \<and> nearby_status nearbyData \<noteq> ''ZERO_RESULTS''
                  then Inl (PlacesApiError (''Google Places API error: '' @ nearby_status nearbyData))
                  else if nearby_status nearbyData = ''ZERO_RESULTS''
                          \<or> (case nearby_results nearbyData of None \<Rightarrow> True | Some ps \<Rightarrow> ps = [])
                  then Inr []
                  else
                    (case nearby_results nearbyData of
                       None \<Rightarrow> Inr []
                     | Some places \<Rightarrow> Inr (filter_Boolean (map (place_restaurant env) places))))"

section \<open>The restaurant service\<close>

subsection \<open>calculateDistance\<close>

text \<open>
  The haversine distance in miles, rounded to two decimals. The arithmetic is that of the
  real numbers: the rounding of each floating-point operation is not part of the model.
  On some nearly antipodal pairs the doubles make \<open>a\<close> exceed 1 by one unit in the last
  place and the source returns \<^verbatim>\<open>NaN\<close>, for both orders of the arguments; the model
  returns the distance.
  \<^verbatim>\<open>parseFloat(x.toFixed(2))\<close> rounds to the nearest hundredth, halves away from zero.
\<close>

definition toRadians :: "real \<Rightarrow> real" where
  "toRadians deg = deg * (pi / 180)"

definition atan2 :: "real \<Rightarrow> real \<Rightarrow> real" where
  "atan2 y x =
     (if 0 < x then arctan (y / x)
      else if x < 0 \<and> 0 \<le> y then arctan (y / x) + pi
      else if x < 0 then arctan (y / x) - pi
      else if 0 < y then pi / 2
      else if y < 0 then - (pi / 2)
      else 0)"

definition toFixed2 :: "real \<Rightarrow> real" where
  "toFixed2 v =
     (if v < 0 then - (of_int \<lfloor>- v * 100 + 1 / 2\<rfloor> / 100)
      else of_int \<lfloor>v * 100 + 1 / 2\<rfloor> / 100)"

definition calculateDistance :: "real \<Rightarrow> real \<Rightarrow> real \<Rightarrow> real \<Rightarrow> real" where
  "calculateDistance lat1 lng1 lat2 lng2 =
     (let R = 3958.8;
          dLat = toRadians (lat2 - lat1);
          dLng = toRadians (lng2 - lng1);
          a = sin (dLat / 2) * sin (dLat / 2) +
              cos (toRadians lat1) * cos (toRadians lat2) * sin (dLng / 2) * sin (dLng / 2);
          c = 2 * atan2 (sqrt a) (sqrt (1 - a))
      in toFixed2 (R * c))"

subsection \<open>The Restaurant table and the cache\<close>

text \<open>
  \<^verbatim>\<open>prisma.restaurant.upsert\<close> creates the row with the provider's values, or updates the
  row of that id; in an update Prisma leaves a column alone whose new value is
  \<^verbatim>\<open>undefined\<close>, so an optional field the provider did not send keeps its stored value.
  The call returns the row as stored. The timestamps of a row are not modelled. The
  upserts of \<^verbatim>\<open>Promise.all\<close> take effect one after the other, in list order.
\<close>

definition restaurant_upsert :: "restaurant \<Rightarrow> restaurant list \<Rightarrow> restaurant \<times> restaurant list" where
  "restaurant_upsert r rows =
     (case find (\<lambda>row. restaurant_id row = restaurant_id r) rows of
        None \<Rightarrow> (r, rows @ [r])
      | Some old \<Rightarrow>
          let updated = old\<lparr>name := name r,
                priceLevel := (case priceLevel r of None \<Rightarrow> priceLevel old | Some v \<Rightarrow> Some v),
                rating := (case rating r of None \<Rightarrow> rating old | Some v \<Rightarrow> Some v),
                lat := lat r,
                lng := lng r,
                photoRef := (case photoRef r of None \<Rightarrow> photoRef old | Some v \<Rightarrow> Some v),
                mapsUrl := mapsUrl r\<rparr>
          in (updated,
              map (\<lambda>row. if restaurant_id row = restaurant_id r then updated else row) rows))"

fun upsert_all :: "restaurant list \<Rightarrow> restaurant list \<Rightarrow> restaurant list \<times> restaurant list" where
  "upsert_all [] rows = ([], rows)"
| "upsert_all (r # rs) rows =
     (case restaurant_upsert r rows of
        (row, rows1) \<Rightarrow> (case upsert_all rs rows1 of (out, rows2) \<Rightarrow> (row # out, rows2)))"

definition fetchAndUpsertRestaurants ::
  "places_env \<Rightarrow> real \<Rightarrow> real \<Rightarrow> real \<Rightarrow> restaurant list \<Rightarrow> (error + restaurant list) \<times> restaurant list" where
  "fetchAndUpsertRestaurants env qlat qlng radius rows =
     (case getNearbyRestaurants env qlat qlng (Some radius) of
        Inl e \<Rightarrow> (Inl e, rows)
      | Inr restaurants \<Rightarrow> (case upsert_all restaurants rows of (out, rows') \<Rightarrow> (Inr out, rows')))"

record 'v cache_entry =
  entry_value :: 'v
  createdTime :: nat
  entry_ttl :: nat

type_synonym 'v lru = "string \<Rightarrow> 'v cache_entry option"

text \<open>
  Modelled from the spec: \<^verbatim>\<open>cachified\<close> and \<^verbatim>\<open>lruCache\<close> of \<^verbatim>\<open>./cache.server\<close> are not among the
  source files. The spec calls the cache a generic TTL-memoization wrapper over an LRU
  structure, a time-bounded memoization of provider responses: a lookup by key returns the
  stored value while its age is within the time to live; otherwise the fresh value is
  computed, stored under the key with the current time, and returned. A fresh value that
  throws stores nothing. Times are milliseconds. \<^verbatim>\<open>getFreshValue\<close> acts on the state it
  is given (here the Restaurant table) and runs only on a miss.
\<close>

definition cachified ::
  "string \<Rightarrow> nat \<Rightarrow> nat \<Rightarrow> 'v lru \<Rightarrow> ('s \<Rightarrow> (error + 'v) \<times> 's) \<Rightarrow> 's \<Rightarrow>
     (error + 'v) \<times> 'v lru \<times> 's" where
  "cachified key ttl now cache getFreshValue st =
     (let miss = (case getFreshValue st of
                    (Inl err, st') \<Rightarrow> (Inl err, cache, st')
                  | (Inr v, st') \<Rightarrow>
                      (Inr v,
                       cache(key \<mapsto> \<lparr>entry_value = v, createdTime = now, entry_ttl = ttl\<rparr>),
                       st'))
      in case cache key of
           None \<Rightarrow> miss
         | Some e \<Rightarrow>
             if now \<le> createdTime e + entry_ttl e then (Inr (entry_value e), cache, st)
             else miss)"

definition RESTAURANT_CACHE_TTL :: nat where
  "RESTAURANT_CACHE_TTL = 1000 * 60 * 60 * 24"

text \<open>The key of the template literal \<^verbatim>\<open>`restaurants-${lat}-${lng}-${radius}`\<close>.\<close>

definition cache_key :: "real \<Rightarrow> real \<Rightarrow> real \<Rightarrow> string" where
  "cache_key qlat qlng radius =
     ''restaurants-'' @ number_toString qlat @ ''-'' @ number_toString qlng @ ''-'' @
     number_toString radius"

subsection \<open>getAllRestaurantDetails\<close>

record world =
  db :: store
  restaurantRows :: "restaurant list"
  lruCache :: "restaurant list lru"

text \<open>\<^verbatim>\<open>getUserAttendingRestaurant\<close>: \<^verbatim>\<open>null\<close>, or the selected \<^verbatim>\<open>dinnerGroup.restaurantId\<close> of the
  user's first Attendee row.\<close>

definition getUserAttendingRestaurant :: "string \<Rightarrow> store \<Rightarrow> string option option" where
  "getUserAttendingRestaurant uid s =
     (case find (\<lambda>a. userId a = uid) (attendees s) of
        None \<Rightarrow> None
      | Some a \<Rightarrow>
          Some (map_option restaurantId
                  (find (\<lambda>g. group_id g = dinnerGroupId a) (dinnerGroups s))))"

text \<open>\<^verbatim>\<open>getAttendeeCounts\<close>: the groups of the given restaurants with their attendee counts,
  reduced into an object from restaurant id to count. The object is a map here: an id
  that names a member of \<^verbatim>\<open>Object.prototype\<close>, which the provider does not issue, is
  outside the model.\<close>

definition getAttendeeCounts :: "string list \<Rightarrow> store \<Rightarrow> (string \<Rightarrow> nat option)" where
  "getAttendeeCounts restaurantIds s =
     fold (\<lambda>group counts. counts(restaurantId group \<mapsto> attendee_count (group_id group) s))
       (filter (\<lambda>g. restaurantId g \<in> set restaurantIds) (dinnerGroups s))
       Map.empty"

text \<open>The callback of the final \<^verbatim>\<open>restaurants.map\<close>.\<close>

definition restaurant_details ::
  "real \<Rightarrow> real \<Rightarrow> string option option \<Rightarrow> (string \<Rightarrow> nat option) \<Rightarrow> restaurant \<Rightarrow> restaurantWithDetails" where
  "restaurant_details qlat qlng userAttendance attendeeCounts r =
     \<lparr>restaurant_id = restaurant_id r, name = name r, priceLevel = priceLevel r,
      rating = rating r, lat = lat r, lng = lng r, photoRef = photoRef r, mapsUrl = mapsUrl r,
      distance = calculateDistance qlat qlng (lat r) (lng r),
      attendeeCount = (case attendeeCounts (restaurant_id r) of None \<Rightarrow> 0 | Some n \<Rightarrow> n),
      isUserAttending = (case userAttendance of
                           Some (Some rid) \<Rightarrow> rid = restaurant_id r
                         | _ \<Rightarrow> False)\<rparr>"

definition getAllRestaurantDetails ::
  "places_env \<Rightarrow> nat \<Rightarrow> real \<Rightarrow> real \<Rightarrow> string \<Rightarrow> real option \<Rightarrow> world \<Rightarrow>
     (error + restaurantWithDetails list) \<times> world" where
  "getAllRestaurantDetails env now qlat qlng uid radius_arg w =
     (let radius = (case radius_arg of None \<Rightarrow> 1600 | Some r \<Rightarrow> r);
          userAttendance = getUserAttendingRestaurant uid (db w)
      in case cachified (cache_key qlat qlng radius) RESTAURANT_CACHE_TTL now (lruCache w)
                (fetchAndUpsertRestaurants env qlat qlng radius) (restaurantRows w) of
           (Inl err, cache', rows') \<Rightarrow> (Inl err, w\<lparr>restaurantRows := rows', lruCache := cache'\<rparr>)
         | (Inr restaurants, cache', rows') \<Rightarrow>
             let w1 = w\<lparr>restaurantRows := rows', lruCache := cache'\<rparr>;
                 restaurantIds = map restaurant_id restaurants;
                 attendeeCounts = getAttendeeCounts restaurantIds (db w1)
             in (Inr (map (restaurant_details qlat qlng userAttendance attendeeCounts) restaurants),
                 w1))"

subsection \<open>The page loader\<close>

record loaderData =
  data_restaurantsWithAttendance :: "restaurantWithDetails list"
  data_restaurantsNearby :: "restaurantWithDetails list"
  data_filters :: "filters option"

text \<open>The coordinates of the conference hotel, constants of the loader.\<close>

definition HILTON_LAT :: real where
  "HILTON_LAT = 40.7596"

definition HILTON_LNG :: real where
  "HILTON_LNG = - 111.8867"

text \<open>\<^verbatim>\<open>requireUserId\<close> is not among the source files; the user id it returns is the
  parameter \<open>uid\<close>.\<close>

definition loader ::
  "places_env \<Rightarrow> nat \<Rightarrow> string \<Rightarrow> filters option \<Rightarrow> world \<Rightarrow> (error + loaderData) \<times> world" where
  "loader env now uid filterParams w =
     (let radius = (case filter_value filter_distance filterParams of
                      Some d \<Rightarrow> d * 1600
                    | None \<Rightarrow> 1600)
      in case getAllRestaurantDetails env now HILTON_LAT HILTON_LNG uid (Some (radius * 2)) w of
           (Inl err, w') \<Rightarrow> (Inl err, w')
         | (Inr restaurants, w') \<Rightarrow>
             (Inr \<lparr>data_restaurantsWithAttendance = restaurantsWithAttendance restaurants,
                   data_restaurantsNearby = restaurantsNearby filterParams restaurants,
                   data_filters = filterParams\<rparr>, w'))"

section \<open>Notions the claims are stated with\<close>

text \<open>A details call succeeds when its status is OK and it carries a result.\<close>

definition details_ok :: "places_env \<Rightarrow> nearbyPlace \<Rightarrow> bool" where
  "details_ok env p \<longleftrightarrow>
     details_status (placeDetails env (place_id p)) = ''OK'' \<and>
     details_result (placeDetails env (place_id p)) \<noteq> None"

text \<open>
  The spec describes the cache key as built from the rounded location and the radius,
  without fixing a precision. \<open>round_to n\<close> rounds to \<open>n\<close> decimals, and \<open>spec_cache_key n\<close>
  is the key the spec's words describe.
\<close>

definition round_to :: "nat \<Rightarrow> real \<Rightarrow> real" where
  "round_to n x = of_int \<lfloor>x * 10 ^ n + 1 / 2\<rfloor> / 10 ^ n"

definition spec_cache_key :: "nat \<Rightarrow> real \<Rightarrow> real \<Rightarrow> real \<Rightarrow> string" where
  "spec_cache_key n qlat qlng radius = cache_key (round_to n qlat) (round_to n qlng) radius"

section \<open>Example values\<close>

definition ex_two_joined :: store where
  "ex_two_joined =
     \<lparr>dinnerGroups = [\<lparr>group_id = 0, restaurantId = ''r1''\<rparr>],
      attendees = [\<lparr>attendee_id = 1, userId = ''u1'', dinnerGroupId = 0\<rparr>,
                   \<lparr>attendee_id = 2, userId = ''u2'', dinnerGroupId = 0\<rparr>],
      nextId = 3\<rparr>"

definition ex_three_rows :: store where
  "ex_three_rows =
     \<lparr>dinnerGroups = [\<lparr>group_id = 1, restaurantId = ''r1''\<rparr>,
                      \<lparr>group_id = 2, restaurantId = ''r2''\<rparr>],
      attendees = [\<lparr>attendee_id = 3, userId = ''u'', dinnerGroupId = 1\<rparr>,
                   \<lparr>attendee_id = 4, userId = ''u'', dinnerGroupId = 1\<rparr>,
                   \<lparr>attendee_id = 5, userId = ''u'', dinnerGroupId = 1\<rparr>],
      nextId = 6\<rparr>"

definition mk_restaurant ::
  "string \<Rightarrow> real option \<Rightarrow> real option \<Rightarrow> real \<Rightarrow> nat \<Rightarrow> restaurantWithDetails" where
  "mk_restaurant i p r d n =
     \<lparr>restaurant_id = i, name = i, priceLevel = p, rating = r, lat = 0, lng = 0,
      photoRef = None, mapsUrl = [], distance = d, attendeeCount = n, isUserAttending = False\<rparr>"

definition ex_restaurants :: "restaurantWithDetails list" where
  "ex_restaurants =
     [mk_restaurant ''a'' (Some 2) (Some 4.5) 0.4 2,
      mk_restaurant ''b'' None None 0.9 0,
      mk_restaurant ''c'' (Some 2) (Some 4.5) 0.5 0,
      mk_restaurant ''d'' (Some 1) (Some 3) 0.2 0,
      mk_restaurant ''e'' (Some 3) (Some 4.8) 3 0,
      mk_restaurant ''f'' None None 0.3 0,
      mk_restaurant ''g'' (Some 2) (Some 4.5) 0.1 5]"

definition ex_filters :: "filters option" where
  "ex_filters = Some \<lparr>filter_distance = Some 2, filter_rating = Some 4, filter_price = Some 2\<rparr>"

definition ex_result :: "string \<Rightarrow> string \<Rightarrow> placeResult" where
  "ex_result i n =
     \<lparr>result_place_id = i, result_name = n, price_level = Some 2,
      result_rating = Some 4.5, location_lat = 40.76, location_lng = - 111.89,
      photos = Some [''photo-a'', ''photo-b''], url = None\<rparr>"

definition ex_env :: places_env where
  "ex_env =
     \<lparr>GOOGLE_PLACES_API_KEY = Some ''key'',
      nearbySearch = (\<lambda>qlat qlng radius.
        \<lparr>nearby_status = ''OK'',
         nearby_results =
           Some [\<lparr>place_id = ''r0''\<rparr>, \<lparr>place_id = ''r1''\<rparr>, \<lparr>place_id = ''r2''\<rparr>]\<rparr>),
      placeDetails = (\<lambda>placeId.
        if placeId = ''r1''
        then \<lparr>details_status = ''OK'', details_result = Some (ex_result ''r1'' ''Red Iguana'')\<rparr>
        else if placeId = ''r2''
        then \<lparr>details_status = ''OK'', details_result = Some (ex_result ''r2'' ''Takashi'')\<rparr>
        else \<lparr>details_status = ''NOT_FOUND'', details_result = None\<rparr>)\<rparr>"

definition ex_env_no_details :: places_env where
  "ex_env_no_details =
     \<lparr>GOOGLE_PLACES_API_KEY = Some ''key'',
      nearbySearch = (\<lambda>qlat qlng radius.
        \<lparr>nearby_status = ''OK'', nearby_results = Some [\<lparr>place_id = ''r0''\<rparr>]\<rparr>),
      placeDetails = (\<lambda>placeId. \<lparr>details_status = ''NOT_FOUND'', details_result = None\<rparr>)\<rparr>"

definition ex_env_denied :: places_env where
  "ex_env_denied =
     \<lparr>GOOGLE_PLACES_API_KEY = Some ''key'',
      nearbySearch = (\<lambda>qlat qlng radius.
        \<lparr>nearby_status = ''REQUEST_DENIED'', nearby_results = None\<rparr>),
      placeDetails = (\<lambda>placeId. \<lparr>details_status = ''NOT_FOUND'', details_result = None\<rparr>)\<rparr>"

definition ex_env_zero :: places_env where
  "ex_env_zero =
     \<lparr>GOOGLE_PLACES_API_KEY = Some ''key'',
      nearbySearch = (\<lambda>qlat qlng radius.
        \<lparr>nearby_status = ''ZERO_RESULTS'', nearby_results = Some []\<rparr>),
      placeDetails = (\<lambda>placeId. \<lparr>details_status = ''NOT_FOUND'', details_result = None\<rparr>)\<rparr>"

definition ex_restaurant :: "string \<Rightarrow> string \<Rightarrow> restaurant" where
  "ex_restaurant i n =
     \<lparr>restaurant_id = i, name = n, priceLevel = Some 2, rating = Some 4.5,
      lat = 40.76, lng = - 111.89, photoRef = Some ''photo-a'',
      mapsUrl = ''https://maps.google.com/?q=40.76,-111.89''\<rparr>"

definition ex_lat_nearby :: real where
  "ex_lat_nearby = 40.75960001"

definition ex_world :: world where
  "ex_world = \<lparr>db = ex_two_joined, restaurantRows = [], lruCache = Map.empty\<rparr>"

definition ex_details :: "restaurantWithDetails list" where
  "ex_details =
     [\<lparr>restaurant_id = ''r1'', name = ''Red Iguana'', priceLevel = Some 2, rating = Some 4.5,
       lat = 40.76, lng = - 111.89, photoRef = Some ''photo-a'',
       mapsUrl = ''https://maps.google.com/?q=40.76,-111.89'',
       distance = calculateDistance HILTON_LAT HILTON_LNG 40.76 (- 111.89),
       attendeeCount = 2, isUserAttending = True\<rparr>,
      \<lparr>restaurant_id = ''r2'', name = ''Takashi'', priceLevel = Some 2, rating = Some 4.5,
       lat = 40.76, lng = - 111.89, photoRef = Some ''photo-a'',
       mapsUrl = ''https://maps.google.com/?q=40.76,-111.89'',
       distance = calculateDistance HILTON_LAT HILTON_LNG 40.76 (- 111.89),
       attendeeCount = 0, isUserAttending = False\<rparr>]"

definition ex_world_cached :: world where
  "ex_world_cached =
     \<lparr>db = ex_two_joined,
      restaurantRows = [ex_restaurant ''r1'' ''Red Iguana'', ex_restaurant ''r2'' ''Takashi''],
      lruCache = [''restaurants-40.7596--111.8867-3200'' \<mapsto>
        \<lparr>entry_value = [ex_restaurant ''r1'' ''Red Iguana'', ex_restaurant ''r2'' ''Takashi''],
         createdTime = 0, entry_ttl = RESTAURANT_CACHE_TTL\<rparr>]\<rparr>"

section \<open>Properties of the store operations\<close>

lemma find_None_filter: "find P xs = None \<longleftrightarrow> filter P xs = []"
  by (induction xs) auto

lemma find_Some_mem: "find P xs = Some x \<Longrightarrow> x \<in> set xs \<and> P x"
  by (induction xs) (auto split: if_splits)

lemma find_Some_filter: "find P xs = Some x \<Longrightarrow> \<exists>ys. filter P xs = x # ys"
  by (induction xs) (auto split: if_splits)

lemma distinct_map_filter_le1:
  "distinct (map f xs) \<Longrightarrow> length (filter (\<lambda>y. f y = k) xs) \<le> 1"
  by (induction xs) (auto simp: filter_empty_conv image_iff)

lemma distinct_map_filter_single:
  "distinct (map f xs) \<Longrightarrow> x \<in> set xs \<Longrightarrow> filter (\<lambda>y. f y = f x) xs = [x]"
  by (induction xs) (auto simp: filter_empty_conv image_iff)

lemma empty_groups_Nil_iff:
  "empty_groups s = [] \<longleftrightarrow>
     (\<forall>g\<in>set (dinnerGroups s). \<exists>a\<in>set (attendees s). dinnerGroupId a = group_id g)"
  by (auto simp: empty_groups_def attendee_count_def filter_empty_conv)

subsection \<open>Facts about leaveDinnerGroup\<close>

lemma leave_no_attendance:
  assumes "attendees_of_user uid s = []"
  shows "leaveDinnerGroup uid s = Inr (None, s)"
proof -
  from assms have "find (\<lambda>a. userId a = uid) (attendees s) = None"
    by (simp add: attendees_of_user_def find_None_filter)
  then show ?thesis
    by (simp add: leaveDinnerGroup_def attendee_findFirst_def)
qed

lemma find_group_of_attendee:
  assumes "store_wf s" "a \<in> set (attendees s)"
  shows "\<exists>g. find (\<lambda>g. group_id g = dinnerGroupId a) (dinnerGroups s) = Some g"
proof -
  from assms have "dinnerGroupId a \<in> group_id ` set (dinnerGroups s)"
    by (auto simp: store_wf_def list_all_iff)
  then have "filter (\<lambda>g. group_id g = dinnerGroupId a) (dinnerGroups s) \<noteq> []"
    by (auto simp: filter_empty_conv)
  then show ?thesis
    by (cases "find (\<lambda>g. group_id g = dinnerGroupId a) (dinnerGroups s)")
      (auto simp: find_None_filter)
qed

lemma leave_some:
  assumes wf: "store_wf s" and f: "find (\<lambda>a. userId a = uid) (attendees s) = Some a"
  shows "\<exists>g. find (\<lambda>g. group_id g = dinnerGroupId a) (dinnerGroups s) = Some g \<and>
             leaveDinnerGroup uid s = Inr (Some (restaurantId g), leave_result a s)"
proof -
  from f have mem: "a \<in> set (attendees s)" by (auto dest: find_Some_mem)
  from find_group_of_attendee[OF wf mem] obtain g where
    g: "find (\<lambda>g. group_id g = dinnerGroupId a) (dinnerGroups s) = Some g" by blast
  then have gm: "g \<in> set (dinnerGroups s)" "group_id g = dinnerGroupId a"
    by (auto dest: find_Some_mem)
  have del: "attendee_delete (attendee_id a) s =
      Inr (s\<lparr>attendees := filter (\<lambda>b. attendee_id b \<noteq> attendee_id a) (attendees s)\<rparr>)"
    using mem by (simp add: attendee_delete_def)
  have gdel: "dinnerGroup_delete (dinnerGroupId a) s1 =
      Inr (s1\<lparr>dinnerGroups := filter (\<lambda>g. group_id g \<noteq> dinnerGroupId a) (dinnerGroups s1)\<rparr>)"
    if "dinnerGroups s1 = dinnerGroups s" for s1
    using gm that by (force simp add: dinnerGroup_delete_def)
  show ?thesis using f g
    by (simp add: leaveDinnerGroup_def attendee_findFirst_def del gdel
        attendee_count_def leave_result_def Let_def)
qed

lemma leave_result_wf:
  assumes "store_wf s"
  shows "store_wf (leave_result a s)"
  using assms
  by (fastforce simp: store_wf_def leave_result_def Let_def list_all_iff distinct_map_filter
      filter_empty_conv)

lemma leave_result_nextId: "nextId (leave_result a s) = nextId s"
  by (simp add: leave_result_def Let_def)

lemma leave_result_attendees:
  "attendees (leave_result a s) = filter (\<lambda>b. attendee_id b \<noteq> attendee_id a) (attendees s)"
  by (simp add: leave_result_def Let_def)

lemma leave_result_empty_groups:
  assumes wf: "store_wf s" and mem: "a \<in> set (attendees s)" and e: "empty_groups s = []"
  shows "empty_groups (leave_result a s) = []"
  unfolding empty_groups_Nil_iff
proof
  fix g assume g: "g \<in> set (dinnerGroups (leave_result a s))"
  let ?rest = "filter (\<lambda>b. attendee_id b \<noteq> attendee_id a) (attendees s)"
  from wf have da: "distinct (map attendee_id (attendees s))" by (simp add: store_wf_def)
  from g have gs: "g \<in> set (dinnerGroups s)"
    by (auto simp: leave_result_def Let_def split: if_splits)
  show "\<exists>b\<in>set (attendees (leave_result a s)). dinnerGroupId b = group_id g"
  proof (cases "group_id g = dinnerGroupId a")
    case True
    with g have "filter (\<lambda>b. dinnerGroupId b = dinnerGroupId a) ?rest \<noteq> []"
      by (auto simp: leave_result_def Let_def split: if_splits)
    then obtain b where "b \<in> set ?rest" "dinnerGroupId b = dinnerGroupId a"
      by (auto simp: filter_empty_conv)
    with True show ?thesis by (auto simp: leave_result_attendees)
  next
    case False
    from e gs obtain b where b: "b \<in> set (attendees s)" "dinnerGroupId b = group_id g"
      unfolding empty_groups_Nil_iff by blast
    with False have "b \<noteq> a" by auto
    with da b(1) mem have "attendee_id b \<noteq> attendee_id a"
      by (auto simp: distinct_map inj_on_def)
    with b show ?thesis by (auto simp: leave_result_attendees)
  qed
qed

lemma leave_result_user:
  assumes f: "find (\<lambda>a. userId a = uid) (attendees s) = Some a"
    and one: "length (attendees_of_user uid s) \<le> 1"
  shows "attendees_of_user uid (leave_result a s) = []"
proof -
  from find_Some_filter[OF f] one have "filter (\<lambda>a. userId a = uid) (attendees s) = [a]"
    by (auto simp: attendees_of_user_def)
  then have "set (filter (\<lambda>a. userId a = uid) (attendees s)) = {a}"
    by simp
  then have "\<forall>b\<in>set (attendees s). userId b = uid \<longrightarrow> b = a"
    by auto
  then show ?thesis
    by (auto simp: attendees_of_user_def leave_result_attendees filter_empty_conv)
qed

lemma leave_wf:
  assumes wf: "store_wf s"
  shows "\<exists>r s'. leaveDinnerGroup uid s = Inr (r, s') \<and> store_wf s' \<and> nextId s' = nextId s \<and>
           set (attendees s') \<subseteq> set (attendees s) \<and>
           (length (attendees_of_user uid s) \<le> 1 \<longrightarrow> attendees_of_user uid s' = []) \<and>
           (distinct (map userId (attendees s)) \<longrightarrow> distinct (map userId (attendees s'))) \<and>
           (empty_groups s = [] \<longrightarrow> empty_groups s' = [])"
proof (cases "find (\<lambda>a. userId a = uid) (attendees s)")
  case None
  then have "attendees_of_user uid s = []"
    by (simp add: attendees_of_user_def find_None_filter)
  with leave_no_attendance[OF this] wf show ?thesis by simp
next
  case (Some a)
  then have a: "a \<in> set (attendees s)" by (auto dest: find_Some_mem)
  from leave_some[OF wf Some] obtain g :: dinnerGroup where
    "leaveDinnerGroup uid s = Inr (Some (restaurantId g), leave_result a s)" by blast
  moreover note leave_result_wf[OF wf, of a] leave_result_nextId[of a s]
  moreover have "set (attendees (leave_result a s)) \<subseteq> set (attendees s)"
    by (auto simp: leave_result_attendees)
  moreover have "length (attendees_of_user uid s) \<le> 1 \<longrightarrow>
      attendees_of_user uid (leave_result a s) = []"
    using leave_result_user[OF Some] by simp
  moreover have "distinct (map userId (attendees s)) \<longrightarrow>
      distinct (map userId (attendees (leave_result a s)))"
    by (simp add: leave_result_attendees distinct_map_filter)
  moreover have "empty_groups s = [] \<longrightarrow> empty_groups (leave_result a s) = []"
    using leave_result_empty_groups[OF wf a] by simp
  ultimately show ?thesis by blast
qed

subsection \<open>Facts about joinDinnerGroup\<close>

lemma joinDinnerGroup_alt:
  "joinDinnerGroup uid rid s =
     (case leaveDinnerGroup uid s of
        Inl e \<Rightarrow> Inl e
      | Inr (left, s1) \<Rightarrow>
          (case find_or_create rid s1 of
             Inl e \<Rightarrow> Inl e
           | Inr (dinnerGroup, s2) \<Rightarrow> attendee_create uid (group_id dinnerGroup) s2))"
  unfolding joinDinnerGroup_def find_or_create_def ..

lemma find_or_create_props:
  assumes wf: "store_wf s1"
  shows "\<exists>g s2. find_or_create rid s1 = Inr (g, s2) \<and> store_wf s2 \<and>
           attendees s2 = attendees s1 \<and> g \<in> set (dinnerGroups s2) \<and> restaurantId g = rid \<and>
           nextId s1 \<le> nextId s2 \<and> set (dinnerGroups s2) \<subseteq> insert g (set (dinnerGroups s1))"
proof (cases "find (\<lambda>g. restaurantId g = rid) (dinnerGroups s1)")
  case None
  then have nin: "rid \<notin> set (map restaurantId (dinnerGroups s1))"
    by (auto simp: find_None_filter filter_empty_conv)
  let ?g = "\<lparr>group_id = nextId s1, restaurantId = rid\<rparr>"
  let ?s2 = "s1\<lparr>dinnerGroups := dinnerGroups s1 @ [?g], nextId := Suc (nextId s1)\<rparr>"
  have eq: "find_or_create rid s1 = Inr (?g, ?s2)"
    using None nin
    by (simp add: find_or_create_def dinnerGroup_findUnique_def dinnerGroup_create_def Let_def)
  have "store_wf ?s2"
    using wf nin by (fastforce simp: store_wf_def list_all_iff)
  then show ?thesis using eq by auto
next
  case (Some g)
  then have g: "g \<in> set (dinnerGroups s1)" "restaurantId g = rid" by (auto dest: find_Some_mem)
  have eq: "find_or_create rid s1 = Inr (g, s1)"
    using Some by (simp add: find_or_create_def dinnerGroup_findUnique_def)
  show ?thesis using eq wf g by auto
qed

lemma attendee_create_props:
  assumes wf: "store_wf s2" and g: "g \<in> set (dinnerGroups s2)"
  shows "\<exists>a s'. attendee_create uid (group_id g) s2 = Inr (a, s') \<and> store_wf s' \<and>
           attendees s' = attendees s2 @ [a] \<and> attendee_id a = nextId s2 \<and>
           dinnerGroupId a = group_id g \<and> userId a = uid \<and> dinnerGroups s' = dinnerGroups s2"
proof -
  let ?a = "\<lparr>attendee_id = nextId s2, userId = uid, dinnerGroupId = group_id g\<rparr>"
  let ?s' = "s2\<lparr>attendees := attendees s2 @ [?a], nextId := Suc (nextId s2)\<rparr>"
  have eq: "attendee_create uid (group_id g) s2 = Inr (?a, ?s')"
    by (simp add: attendee_create_def Let_def)
  have "store_wf ?s'"
    using wf g by (fastforce simp: store_wf_def list_all_iff)
  then show ?thesis using eq by simp
qed

lemma join_wf:
  assumes wf: "store_wf s"
  shows "\<exists>a s' s1 g. joinDinnerGroup uid rid s = Inr (a, s') \<and> store_wf s' \<and> store_wf s1 \<and>
           set (attendees s1) \<subseteq> set (attendees s) \<and>
           attendees s' = attendees s1 @ [a] \<and> userId a = uid \<and> nextId s \<le> attendee_id a \<and>
           g \<in> set (dinnerGroups s') \<and> group_id g = dinnerGroupId a \<and> restaurantId g = rid \<and>
           set (dinnerGroups s') \<subseteq> insert g (set (dinnerGroups s1)) \<and>
           (length (attendees_of_user uid s) \<le> 1 \<longrightarrow> attendees_of_user uid s1 = []) \<and>
           (distinct (map userId (attendees s)) \<longrightarrow> distinct (map userId (attendees s1))) \<and>
           (empty_groups s = [] \<longrightarrow> empty_groups s1 = [])"
proof -
  from leave_wf[OF wf, of uid] obtain r s1 where
    l: "leaveDinnerGroup uid s = Inr (r, s1)" and wf1: "store_wf s1"
    and n1: "nextId s1 = nextId s" and sub: "set (attendees s1) \<subseteq> set (attendees s)"
    and rest: "length (attendees_of_user uid s) \<le> 1 \<longrightarrow> attendees_of_user uid s1 = []"
      "distinct (map userId (attendees s)) \<longrightarrow> distinct (map userId (attendees s1))"
      "empty_groups s = [] \<longrightarrow> empty_groups s1 = []"
    by blast
  from find_or_create_props[OF wf1, of rid] obtain g s2 where
    f: "find_or_create rid s1 = Inr (g, s2)" and wf2: "store_wf s2"
    and att: "attendees s2 = attendees s1" and g: "g \<in> set (dinnerGroups s2)" "restaurantId g = rid"
    and n2: "nextId s1 \<le> nextId s2"
    and gs: "set (dinnerGroups s2) \<subseteq> insert g (set (dinnerGroups s1))" by blast
  from attendee_create_props[OF wf2 g(1), of uid] obtain a s' where
    c: "attendee_create uid (group_id g) s2 = Inr (a, s')" and wf': "store_wf s'"
    and att': "attendees s' = attendees s2 @ [a]" and aid: "attendee_id a = nextId s2"
    and gid: "dinnerGroupId a = group_id g" and u: "userId a = uid"
    and gs': "dinnerGroups s' = dinnerGroups s2" by blast
  have "joinDinnerGroup uid rid s = Inr (a, s')"
    by (simp add: joinDinnerGroup_alt l f c)
  with wf' wf1 sub att att' u aid n1 n2 g gid gs gs' rest show ?thesis
    by (intro exI[of _ a] exI[of _ s'] exI[of _ s1] exI[of _ g]) simp
qed

lemma leave_inv:
  assumes "store_inv s" "leaveDinnerGroup uid s = Inr (r, s')"
  shows "store_inv s'"
  using assms leave_wf[of s uid] by (auto simp: store_inv_def)

lemma join_inv:
  assumes inv: "store_inv s" and j: "joinDinnerGroup uid rid s = Inr (a, s')"
  shows "store_inv s'"
proof -
  from inv have wf: "store_wf s" and du: "distinct (map userId (attendees s))"
    and e: "empty_groups s = []" by (simp_all add: store_inv_def)
  from du have one: "length (attendees_of_user uid s) \<le> 1"
    using distinct_map_filter_le1[of userId "attendees s" uid]
    by (simp add: attendees_of_user_def)
  from join_wf[OF wf, of uid rid] j one du e obtain s1 g where
    wf': "store_wf s'" and att': "attendees s' = attendees s1 @ [a]" and u: "userId a = uid"
    and g: "g \<in> set (dinnerGroups s')" "group_id g = dinnerGroupId a"
    and gs: "set (dinnerGroups s') \<subseteq> insert g (set (dinnerGroups s1))"
    and nu: "attendees_of_user uid s1 = []" and du1: "distinct (map userId (attendees s1))"
    and e1: "empty_groups s1 = []"
    by auto
  from nu have "uid \<notin> userId ` set (attendees s1)"
    by (auto simp: attendees_of_user_def filter_empty_conv)
  with du1 att' u have "distinct (map userId (attendees s'))" by simp
  moreover have "empty_groups s' = []"
    unfolding empty_groups_Nil_iff
  proof
    fix h assume h: "h \<in> set (dinnerGroups s')"
    show "\<exists>b\<in>set (attendees s'). dinnerGroupId b = group_id h"
    proof (cases "h = g")
      case True
      with g att' show ?thesis by auto
    next
      case False
      with h gs have "h \<in> set (dinnerGroups s1)" by auto
      with e1 att' show ?thesis unfolding empty_groups_Nil_iff by auto
    qed
  qed
  ultimately show ?thesis using wf' by (simp add: store_inv_def)
qed

lemma reachable_inv: "reachable s \<Longrightarrow> store_inv s"
proof (induction rule: reachable.induct)
  case reachable_empty
  show ?case by (simp add: empty_store_def store_inv_def store_wf_def empty_groups_def)
next
  case (reachable_join s uid rid a s')
  then show ?case by (auto intro: join_inv)
next
  case (reachable_leave s uid r s')
  then show ?case by (auto intro: leave_inv)
qed


text \<open>
  In a reachable state every call returns: no exception leaves the store half-way
  through a call.
\<close>

lemma reachable_calls_return:
  assumes "reachable s"
  shows "(\<exists>a s'. joinDinnerGroup uid rid s = Inr (a, s')) \<and>
         (\<exists>r s'. leaveDinnerGroup uid s = Inr (r, s'))"
proof -
  from reachable_inv[OF assms] have wf: "store_wf s" by (simp add: store_inv_def)
  from join_wf[OF wf, of uid rid] leave_wf[OF wf, of uid] show ?thesis by blast
qed

lemma reachable_ex_two_joined: "reachable ex_two_joined"
proof -
  have 1: "joinDinnerGroup ''u1'' ''r1'' empty_store =
      Inr (\<lparr>attendee_id = 1, userId = ''u1'', dinnerGroupId = 0\<rparr>,
           \<lparr>dinnerGroups = [\<lparr>group_id = 0, restaurantId = ''r1''\<rparr>],
            attendees = [\<lparr>attendee_id = 1, userId = ''u1'', dinnerGroupId = 0\<rparr>],
            nextId = 2\<rparr>)"
    by (simp add: joinDinnerGroup_def leaveDinnerGroup_def attendee_findFirst_def
        dinnerGroup_findUnique_def dinnerGroup_create_def attendee_create_def empty_store_def
        Let_def)
  have 2: "joinDinnerGroup ''u2'' ''r1''
        \<lparr>dinnerGroups = [\<lparr>group_id = 0, restaurantId = ''r1''\<rparr>],
            attendees = [\<lparr>attendee_id = 1, userId = ''u1'', dinnerGroupId = 0\<rparr>],
            nextId = 2\<rparr> =
      Inr (\<lparr>attendee_id = 2, userId = ''u2'', dinnerGroupId = 0\<rparr>, ex_two_joined)"
    by (simp add: joinDinnerGroup_def leaveDinnerGroup_def attendee_findFirst_def
        dinnerGroup_findUnique_def dinnerGroup_create_def attendee_create_def ex_two_joined_def
        Let_def)
  show ?thesis
    by (rule reachable_join[OF reachable_join[OF reachable_empty 1] 2])
qed

text \<open>
  Claim C1. After \<open>joinDinnerGroup uid rid\<close> the user has exactly one Attendee row, that
  row belongs to the one DinnerGroup of the target restaurant, and no row the user had
  before the call is left. This holds in every state that sequential calls reach from the
  empty store and, more generally, in every well-formed store in which the user has at
  most one row. In such a store the call always returns.
\<close>

theorem joinDinnerGroup_single_membership:
  assumes st: "reachable s \<or> store_wf s \<and> length (attendees_of_user uid s) \<le> 1"
  shows "\<exists>a s' g. joinDinnerGroup uid rid s = Inr (a, s') \<and>
           attendees_of_user uid s' = [a] \<and>
           groups_of_restaurant rid s' = [g] \<and>
           filter (\<lambda>h. group_id h = dinnerGroupId a) (dinnerGroups s') = [g] \<and>
           set (attendees_of_user uid s) \<inter> set (attendees s') = {}"
proof -
  have "store_wf s \<and> length (attendees_of_user uid s) \<le> 1"
  proof (cases "reachable s")
    case True
    from reachable_inv[OF this] have "store_wf s" "distinct (map userId (attendees s))"
      by (simp_all add: store_inv_def)
    with distinct_map_filter_le1[of userId "attendees s" uid] show ?thesis
      by (simp add: attendees_of_user_def)
  next
    case False
    with st show ?thesis by simp
  qed
  then have wf: "store_wf s" and one: "length (attendees_of_user uid s) \<le> 1" by simp_all
  from join_wf[OF wf, of uid rid] one obtain a s' s1 g where
    j: "joinDinnerGroup uid rid s = Inr (a, s')" and wf': "store_wf s'" and wf1: "store_wf s1"
    and sub: "set (attendees s1) \<subseteq> set (attendees s)"
    and att': "attendees s' = attendees s1 @ [a]" and u: "userId a = uid"
    and fresh: "nextId s \<le> attendee_id a"
    and g: "g \<in> set (dinnerGroups s')" "group_id g = dinnerGroupId a" "restaurantId g = rid"
    and nu: "attendees_of_user uid s1 = []"
    by auto
  have only: "attendees_of_user uid s' = [a]"
    using nu att' u by (simp add: attendees_of_user_def)
  from wf' have dr: "distinct (map restaurantId (dinnerGroups s'))"
    and dg: "distinct (map group_id (dinnerGroups s'))" by (simp_all add: store_wf_def)
  have g1: "groups_of_restaurant rid s' = [g]"
    using distinct_map_filter_single[OF dr g(1)] g(3) by (simp add: groups_of_restaurant_def)
  have g2: "filter (\<lambda>h. group_id h = dinnerGroupId a) (dinnerGroups s') = [g]"
    using distinct_map_filter_single[OF dg g(1)] g(2) by simp
  have "set (attendees_of_user uid s) \<inter> set (attendees s') = {}"
  proof -
    { fix b assume b: "b \<in> set (attendees_of_user uid s)" "b \<in> set (attendees s')"
      then have "b \<in> set (attendees_of_user uid s')" by (simp add: attendees_of_user_def)
      with only have "b = a" by simp
      moreover from wf b(1) have "attendee_id b < nextId s"
        by (auto simp: store_wf_def list_all_iff attendees_of_user_def)
      ultimately have False using fresh by simp }
    then show ?thesis by blast
  qed
  with j only g1 g2 show ?thesis by blast
qed

theorem joinDinnerGroup_single_membership_witness:
  "reachable ex_two_joined \<and>
   store_wf ex_two_joined \<and> length (attendees_of_user ''u1'' ex_two_joined) \<le> 1 \<and>
   (\<exists>a s' g. joinDinnerGroup ''u1'' ''r2'' ex_two_joined = Inr (a, s') \<and>
      attendees_of_user ''u1'' s' = [a] \<and> groups_of_restaurant ''r2'' s' = [g] \<and>
      filter (\<lambda>h. group_id h = dinnerGroupId a) (dinnerGroups s') = [g] \<and>
      set (attendees_of_user ''u1'' ex_two_joined) \<inter> set (attendees s') = {})"
proof -
  have wf: "store_wf ex_two_joined"
    by (simp add: store_wf_def ex_two_joined_def)
  have one: "length (attendees_of_user ''u1'' ex_two_joined) \<le> 1"
    by (simp add: attendees_of_user_def ex_two_joined_def)
  from joinDinnerGroup_single_membership[of ex_two_joined "''u1''" "''r2''"]
    reachable_ex_two_joined wf one
  show ?thesis by blast
qed

text \<open>
  Claim C2, as stated for every starting state, fails: in a well-formed store where the
  user has three Attendee rows and another DinnerGroup has no attendee, two calls of
  leaveDinnerGroup both return the restaurant id, the user still has a row afterwards
  and the empty group is still there.
\<close>

theorem leaveDinnerGroup_twice_counterexample:
  "store_wf ex_three_rows \<and>
   leaveDinnerGroup ''u'' ex_three_rows =
     Inr (Some ''r1'', ex_three_rows\<lparr>attendees :=
       [\<lparr>attendee_id = 4, userId = ''u'', dinnerGroupId = 1\<rparr>,
        \<lparr>attendee_id = 5, userId = ''u'', dinnerGroupId = 1\<rparr>]\<rparr>) \<and>
   leaveDinnerGroup ''u'' (ex_three_rows\<lparr>attendees :=
       [\<lparr>attendee_id = 4, userId = ''u'', dinnerGroupId = 1\<rparr>,
        \<lparr>attendee_id = 5, userId = ''u'', dinnerGroupId = 1\<rparr>]\<rparr>) =
     Inr (Some ''r1'', ex_three_rows\<lparr>attendees :=
       [\<lparr>attendee_id = 5, userId = ''u'', dinnerGroupId = 1\<rparr>]\<rparr>) \<and>
   attendees_of_user ''u'' (ex_three_rows\<lparr>attendees :=
       [\<lparr>attendee_id = 5, userId = ''u'', dinnerGroupId = 1\<rparr>]\<rparr>) =
     [\<lparr>attendee_id = 5, userId = ''u'', dinnerGroupId = 1\<rparr>] \<and>
   empty_groups (ex_three_rows\<lparr>attendees :=
       [\<lparr>attendee_id = 5, userId = ''u'', dinnerGroupId = 1\<rparr>]\<rparr>) =
     [\<lparr>group_id = 2, restaurantId = ''r2''\<rparr>]"
  by (simp add: store_wf_def ex_three_rows_def leaveDinnerGroup_def attendee_findFirst_def
      attendee_delete_def attendee_count_def dinnerGroup_delete_def attendees_of_user_def
      empty_groups_def Let_def)

text \<open>
  Claim C2, amended. In every store a call for a user without attendance changes nothing
  and returns null. In a well-formed store where the user has at most one Attendee row
  and no DinnerGroup is empty, a call returns, a second call after it changes nothing and
  returns null, the user has no Attendee row and no DinnerGroup is empty.
\<close>

theorem leaveDinnerGroup_twice:
  "(attendees_of_user uid s = [] \<longrightarrow> leaveDinnerGroup uid s = Inr (None, s)) \<and>
   (store_wf s \<and> length (attendees_of_user uid s) \<le> 1 \<and> empty_groups s = [] \<longrightarrow>
      (\<exists>r s'. leaveDinnerGroup uid s = Inr (r, s') \<and>
               leaveDinnerGroup uid s' = Inr (None, s') \<and>
               attendees_of_user uid s' = [] \<and> empty_groups s' = []))"
proof (intro conjI impI)
  assume "attendees_of_user uid s = []"
  then show "leaveDinnerGroup uid s = Inr (None, s)" by (rule leave_no_attendance)
next
  assume a: "store_wf s \<and> length (attendees_of_user uid s) \<le> 1 \<and> empty_groups s = []"
  with leave_wf[of s uid] obtain r s' where
    l: "leaveDinnerGroup uid s = Inr (r, s')" and nu: "attendees_of_user uid s' = []"
    and e: "empty_groups s' = []" by auto
  from leave_no_attendance[OF nu] l nu e
  show "\<exists>r s'. leaveDinnerGroup uid s = Inr (r, s') \<and>
               leaveDinnerGroup uid s' = Inr (None, s') \<and>
               attendees_of_user uid s' = [] \<and> empty_groups s' = []" by blast
qed

theorem leaveDinnerGroup_twice_witness:
  "attendees_of_user ''u3'' ex_two_joined = [] \<and>
   leaveDinnerGroup ''u3'' ex_two_joined = Inr (None, ex_two_joined) \<and>
   store_wf ex_two_joined \<and> length (attendees_of_user ''u1'' ex_two_joined) \<le> 1 \<and>
   empty_groups ex_two_joined = [] \<and>
   (\<exists>r s'. leaveDinnerGroup ''u1'' ex_two_joined = Inr (r, s') \<and>
            leaveDinnerGroup ''u1'' s' = Inr (None, s') \<and>
            attendees_of_user ''u1'' s' = [] \<and> empty_groups s' = [])"
proof -
  have 1: "attendees_of_user ''u3'' ex_two_joined = []"
    by (simp add: attendees_of_user_def ex_two_joined_def)
  have 2: "store_wf ex_two_joined \<and> length (attendees_of_user ''u1'' ex_two_joined) \<le> 1 \<and>
      empty_groups ex_two_joined = []"
    by (simp add: store_wf_def attendees_of_user_def empty_groups_def attendee_count_def
        ex_two_joined_def)
  from leaveDinnerGroup_twice[of "''u3''" ex_two_joined] 1
  have 3: "leaveDinnerGroup ''u3'' ex_two_joined = Inr (None, ex_two_joined)" by blast
  from leaveDinnerGroup_twice[of "''u1''" ex_two_joined] 2
  have 4: "\<exists>r s'. leaveDinnerGroup ''u1'' ex_two_joined = Inr (r, s') \<and>
            leaveDinnerGroup ''u1'' s' = Inr (None, s') \<and>
            attendees_of_user ''u1'' s' = [] \<and> empty_groups s' = []" by blast
  from 1 2 3 4 show ?thesis by blast
qed

text \<open>
  Claim C4. In every state reachable from the empty store by sequential joinDinnerGroup
  and leaveDinnerGroup calls there is at most one DinnerGroup per restaurant id and at
  most one Attendee row per user.
\<close>

theorem reachable_one_group_one_attendee:
  assumes "reachable s"
  shows "length (groups_of_restaurant rid s) \<le> 1 \<and> length (attendees_of_user uid s) \<le> 1"
proof -
  from reachable_inv[OF assms] have "distinct (map restaurantId (dinnerGroups s))"
    and "distinct (map userId (attendees s))"
    by (simp_all add: store_inv_def store_wf_def)
  then show ?thesis
    using distinct_map_filter_le1[of restaurantId "dinnerGroups s" rid]
      distinct_map_filter_le1[of userId "attendees s" uid]
    by (simp add: groups_of_restaurant_def attendees_of_user_def)
qed

theorem reachable_one_group_one_attendee_witness:
  "reachable ex_two_joined \<and>
   length (groups_of_restaurant ''r1'' ex_two_joined) \<le> 1 \<and>
   length (attendees_of_user ''u2'' ex_two_joined) \<le> 1"
  using reachable_one_group_one_attendee[OF reachable_ex_two_joined, of "''r1''" "''u2''"]
    reachable_ex_two_joined
  by simp

section \<open>Properties of the loader's lists\<close>

lemma mset_insert_by: "mset (insert_by cmp x ys) = add_mset x (mset ys)"
  by (induction ys) auto

lemma mset_js_sort: "mset (js_sort cmp xs) = mset xs"
  by (induction xs) (auto simp: js_sort_def mset_insert_by)

lemma set_js_sort: "set (js_sort cmp xs) = set xs"
  using mset_js_sort[of cmp xs] by (metis set_mset_mset)

lemma length_js_sort: "length (js_sort cmp xs) = length xs"
  using mset_js_sort[of cmp xs] by (metis size_mset)

lemma set_insert_by: "set (insert_by cmp x ys) = insert x (set ys)"
  by (induction ys) auto

lemma sorted_insert_by:
  assumes total: "\<And>a b. cmp a b \<le> 0 \<or> cmp b a \<le> 0"
    and trans: "\<And>a b c. cmp a b \<le> 0 \<Longrightarrow> cmp b c \<le> 0 \<Longrightarrow> cmp a c \<le> 0"
    and s: "sorted_wrt (\<lambda>a b. cmp a b \<le> 0) ys"
  shows "sorted_wrt (\<lambda>a b. cmp a b \<le> 0) (insert_by cmp x ys)"
  using s
proof (induction ys)
  case Nil
  show ?case by simp
next
  case (Cons y ys)
  show ?case
  proof (cases "cmp x y \<le> 0")
    case True
    with Cons.prems trans show ?thesis by auto
  next
    case False
    with total have "cmp y x \<le> 0" by blast
    with False Cons show ?thesis by (auto simp: set_insert_by)
  qed
qed

lemma sorted_js_sort:
  assumes total: "\<And>a b. cmp a b \<le> 0 \<or> cmp b a \<le> 0"
    and trans: "\<And>a b c. cmp a b \<le> 0 \<Longrightarrow> cmp b c \<le> 0 \<Longrightarrow> cmp a c \<le> 0"
  shows "sorted_wrt (\<lambda>a b. cmp a b \<le> 0) (js_sort cmp xs)"
proof (induction xs)
  case Nil
  show ?case by (simp add: js_sort_def)
next
  case (Cons x xs)
  from sorted_insert_by[of cmp "js_sort cmp xs" x, OF total trans Cons]
  show ?case by (simp add: js_sort_def)
qed

lemma nearby_compare_le:
  "nearby_compare a b \<le> 0 \<longleftrightarrow>
     or_zero (rating b) < or_zero (rating a) \<or>
     (or_zero (rating a) = or_zero (rating b) \<and> distance a \<le> distance b)"
  by (auto simp: nearby_compare_def Let_def)

lemma sorted_wrt_take: "sorted_wrt R xs \<Longrightarrow> sorted_wrt R (take n xs)"
  by (metis append_take_drop_id sorted_wrt_append)

lemma ex_nearby_none:
  "restaurantsNearby None ex_restaurants =
     [mk_restaurant ''c'' (Some 2) (Some 4.5) 0.5 0,
      mk_restaurant ''d'' (Some 1) (Some 3) 0.2 0,
      mk_restaurant ''f'' None None 0.3 0,
      mk_restaurant ''b'' None None 0.9 0]"
  by (simp add: restaurantsNearby_def ex_restaurants_def mk_restaurant_def js_sort_def
      nearby_filter_def nearby_compare_def filter_value_def or_zero_def Let_def)

lemma ex_nearby_filters:
  "restaurantsNearby ex_filters ex_restaurants = [mk_restaurant ''c'' (Some 2) (Some 4.5) 0.5 0]"
  by (simp add: restaurantsNearby_def ex_restaurants_def mk_restaurant_def js_sort_def
      nearby_filter_def nearby_compare_def filter_value_def or_zero_def Let_def ex_filters_def)

lemma ex_with_attendance:
  "restaurantsWithAttendance ex_restaurants =
     [mk_restaurant ''g'' (Some 2) (Some 4.5) 0.1 5, mk_restaurant ''a'' (Some 2) (Some 4.5) 0.4 2]"
  by (simp add: restaurantsWithAttendance_def ex_restaurants_def mk_restaurant_def js_sort_def)

text \<open>
  Claim C5. The nearby list has at most 30 restaurants, all taken from the input, all
  with no attendee, and each satisfies the distance bound (the distance filter, or 1 mile
  without one), the rating filter and the price filter when these are set.
\<close>

theorem loader_nearby_filtered:
  "length (restaurantsNearby filterParams restaurants) \<le> 30 \<and>
   (\<forall>r\<in>set (restaurantsNearby filterParams restaurants).
      r \<in> set restaurants \<and>
      attendeeCount r = 0 \<and>
      distance r \<le> (case filter_value filter_distance filterParams of Some d \<Rightarrow> d | None \<Rightarrow> 1) \<and>
      (\<forall>m. filter_value filter_rating filterParams = Some m \<longrightarrow>
           (\<exists>x. rating r = Some x \<and> m \<le> x)) \<and>
      (\<forall>p. filter_value filter_price filterParams = Some p \<longrightarrow> priceLevel r = Some p))"
proof (intro conjI ballI)
  show "length (restaurantsNearby filterParams restaurants) \<le> 30"
    by (simp add: restaurantsNearby_def)
next
  fix r assume "r \<in> set (restaurantsNearby filterParams restaurants)"
  then have "r \<in> set (js_sort nearby_compare (filter (nearby_filter filterParams) restaurants))"
    unfolding restaurantsNearby_def by (rule in_set_takeD)
  then have mem: "r \<in> set restaurants" and ok: "nearby_filter filterParams r"
    by (simp_all add: set_js_sort)
  show "r \<in> set restaurants" by (rule mem)
  show "attendeeCount r = 0"
    using ok by (simp add: nearby_filter_def split: if_splits)
  show "distance r \<le> (case filter_value filter_distance filterParams of Some d \<Rightarrow> d | None \<Rightarrow> 1)"
    using ok by (auto simp: nearby_filter_def split: if_splits option.splits)
  show "\<forall>m. filter_value filter_rating filterParams = Some m \<longrightarrow>
           (\<exists>x. rating r = Some x \<and> m \<le> x)"
    using ok by (auto simp: nearby_filter_def or_zero_def split: if_splits option.splits)
  show "\<forall>p. filter_value filter_price filterParams = Some p \<longrightarrow> priceLevel r = Some p"
    using ok by (auto simp: nearby_filter_def split: if_splits option.splits)
qed

theorem loader_nearby_filtered_witness:
  "mk_restaurant ''c'' (Some 2) (Some 4.5) 0.5 0 \<in> set (restaurantsNearby ex_filters ex_restaurants) \<and>
   filter_value filter_distance ex_filters = Some 2 \<and>
   filter_value filter_rating ex_filters = Some 4 \<and>
   filter_value filter_price ex_filters = Some 2 \<and>
   length (restaurantsNearby ex_filters ex_restaurants) \<le> 30 \<and>
   attendeeCount (mk_restaurant ''c'' (Some 2) (Some 4.5) 0.5 0) = 0 \<and>
   distance (mk_restaurant ''c'' (Some 2) (Some 4.5) 0.5 0) \<le> 2 \<and>
   (\<exists>x. rating (mk_restaurant ''c'' (Some 2) (Some 4.5) 0.5 0) = Some x \<and> 4 \<le> x) \<and>
   priceLevel (mk_restaurant ''c'' (Some 2) (Some 4.5) 0.5 0) = Some 2"
proof -
  let ?c = "mk_restaurant ''c'' (Some 2) (Some 4.5) 0.5 0"
  have m: "?c \<in> set (restaurantsNearby ex_filters ex_restaurants)"
    by (simp add: ex_nearby_filters)
  have f: "filter_value filter_distance ex_filters = Some 2"
    "filter_value filter_rating ex_filters = Some 4"
    "filter_value filter_price ex_filters = Some 2"
    by (simp_all add: filter_value_def ex_filters_def)
  from loader_nearby_filtered[of ex_filters ex_restaurants] m f
  show ?thesis by auto
qed

text \<open>
  Claim C6. The first list holds exactly the restaurants with an attendee, by attendee
  count descending; the nearby list holds restaurants without attendee, by rating
  descending and then distance ascending, a missing rating counting as 0. When no rating
  is negative, a restaurant without rating is followed only by restaurants whose rating
  is missing or 0.
\<close>

theorem loader_split_sorted:
  "mset (restaurantsWithAttendance restaurants) = mset (filter (\<lambda>r. attendeeCount r > 0) restaurants) \<and>
   sorted_wrt (\<lambda>a b. attendeeCount a \<ge> attendeeCount b) (restaurantsWithAttendance restaurants) \<and>
   (\<forall>r\<in>set (restaurantsNearby filterParams restaurants). attendeeCount r = 0) \<and>
   sorted_wrt (\<lambda>a b. or_zero (rating a) > or_zero (rating b) \<or>
                 (or_zero (rating a) = or_zero (rating b) \<and> distance a \<le> distance b))
     (restaurantsNearby filterParams restaurants) \<and>
   ((\<forall>r\<in>set restaurants. 0 \<le> or_zero (rating r)) \<longrightarrow>
      (\<forall>i j. i < j \<and> j < length (restaurantsNearby filterParams restaurants) \<and>
             rating (restaurantsNearby filterParams restaurants ! i) = None \<longrightarrow>
             or_zero (rating (restaurantsNearby filterParams restaurants ! j)) = 0))"
proof (intro conjI)
  show "mset (restaurantsWithAttendance restaurants) =
      mset (filter (\<lambda>r. attendeeCount r > 0) restaurants)"
    by (simp add: restaurantsWithAttendance_def mset_js_sort)
next
  have "sorted_wrt (\<lambda>a b. real (attendeeCount b) - real (attendeeCount a) \<le> 0)
      (restaurantsWithAttendance restaurants)"
    unfolding restaurantsWithAttendance_def by (rule sorted_js_sort) auto
  then show "sorted_wrt (\<lambda>a b. attendeeCount a \<ge> attendeeCount b)
      (restaurantsWithAttendance restaurants)"
    by simp
next
  show "\<forall>r\<in>set (restaurantsNearby filterParams restaurants). attendeeCount r = 0"
    by (auto simp: restaurantsNearby_def set_js_sort nearby_filter_def
        dest!: in_set_takeD split: if_splits)
next
  let ?R = "\<lambda>a b. or_zero (rating a) > or_zero (rating b) \<or>
                 (or_zero (rating a) = or_zero (rating b) \<and> distance a \<le> distance b)"
  let ?ns = "restaurantsNearby filterParams restaurants"
  have "sorted_wrt (\<lambda>a b. nearby_compare a b \<le> 0)
      (js_sort nearby_compare (filter (nearby_filter filterParams) restaurants))"
  proof (rule sorted_js_sort)
    fix a b :: restaurantWithDetails
    show "nearby_compare a b \<le> 0 \<or> nearby_compare b a \<le> 0"
      unfolding nearby_compare_le by auto
  next
    fix a b c :: restaurantWithDetails
    assume "nearby_compare a b \<le> 0" "nearby_compare b c \<le> 0"
    then show "nearby_compare a c \<le> 0"
      unfolding nearby_compare_le by auto
  qed
  then have s: "sorted_wrt ?R ?ns"
    unfolding restaurantsNearby_def nearby_compare_le by (rule sorted_wrt_take)
  show "sorted_wrt ?R ?ns" by (rule s)
  show "(\<forall>r\<in>set restaurants. 0 \<le> or_zero (rating r)) \<longrightarrow>
      (\<forall>i j. i < j \<and> j < length ?ns \<and> rating (?ns ! i) = None \<longrightarrow> or_zero (rating (?ns ! j)) = 0)"
  proof (intro impI allI)
    fix i j
    assume nonneg: "\<forall>r\<in>set restaurants. 0 \<le> or_zero (rating r)"
      and ij: "i < j \<and> j < length ?ns \<and> rating (?ns ! i) = None"
    from ij have "i < j" "j < length ?ns" by simp_all
    from sorted_wrt_nth_less[OF s this] have "?R (?ns ! i) (?ns ! j)" .
    with ij have le: "or_zero (rating (?ns ! j)) \<le> 0"
      by (auto simp: or_zero_def)
    from ij have "?ns ! j \<in> set ?ns" by simp
    then have "?ns ! j \<in> set restaurants"
      by (auto simp: restaurantsNearby_def set_js_sort dest!: in_set_takeD)
    with nonneg le show "or_zero (rating (?ns ! j)) = 0" by force
  qed
qed

theorem loader_split_sorted_witness:
  "list_all (\<lambda>r. 0 \<le> or_zero (rating r)) ex_restaurants \<and>
   (2::nat) < 3 \<and> 3 < length (restaurantsNearby None ex_restaurants) \<and>
   rating (restaurantsNearby None ex_restaurants ! 2) = None \<and>
   or_zero (rating (restaurantsNearby None ex_restaurants ! 3)) = 0 \<and>
   mset (restaurantsWithAttendance ex_restaurants) =
     mset (filter (\<lambda>r. attendeeCount r > 0) ex_restaurants) \<and>
   sorted_wrt (\<lambda>a b. attendeeCount a \<ge> attendeeCount b) (restaurantsWithAttendance ex_restaurants)"
proof -
  have 1: "\<forall>r\<in>set ex_restaurants. 0 \<le> or_zero (rating r)"
    by (simp add: ex_restaurants_def mk_restaurant_def or_zero_def)
  have 2: "(2::nat) < 3 \<and> 3 < length (restaurantsNearby None ex_restaurants) \<and>
      rating (restaurantsNearby None ex_restaurants ! 2) = None"
    by (simp add: ex_nearby_none mk_restaurant_def)
  from loader_split_sorted[of ex_restaurants None] 1 2
  have "or_zero (rating (restaurantsNearby None ex_restaurants ! 3)) = 0" by blast
  with loader_split_sorted[of ex_restaurants None] 1 2 show ?thesis
    by (simp add: list_all_iff)
qed

section \<open>Properties of the Places provider\<close>

lemma filter_Boolean_Nil_iff: "filter_Boolean xs = [] \<longleftrightarrow> (\<forall>x\<in>set xs. x = None)"
  by (induction xs rule: filter_Boolean.induct) auto

lemma map_Some_filter_Boolean: "map Some (filter_Boolean xs) = filter (\<lambda>x. x \<noteq> None) xs"
  by (induction xs rule: filter_Boolean.induct) auto

lemma place_restaurant_None_iff: "place_restaurant env p = None \<longleftrightarrow> \<not> details_ok env p"
  by (auto simp: place_restaurant_def details_ok_def Let_def split: option.splits)

lemma place_restaurant_Some:
  assumes "details_result (placeDetails env (place_id p)) = Some res"
    and "details_status (placeDetails env (place_id p)) = ''OK''"
  shows "\<exists>r. place_restaurant env p = Some r \<and> restaurant_id r = result_place_id res \<and>
           name r = result_name res \<and> priceLevel r = price_level res \<and>
           rating r = result_rating res \<and> lat r = location_lat res \<and> lng r = location_lng res"
  using assms by (simp add: place_restaurant_def Let_def)

text \<open>The shape of the result when the key is set.\<close>

lemma getNearbyRestaurants_cases:
  assumes "GOOGLE_PLACES_API_KEY env = Some k" "k \<noteq> []"
  shows "getNearbyRestaurants env qlat qlng radius_arg =
     (let nearbyData = nearbySearch env qlat qlng (case radius_arg of None \<Rightarrow> 1600 | Some r \<Rightarrow> r)
      in if nearby_status nearbyData \<noteq> ''OK'' \<and> nearby_status nearbyData \<noteq> ''ZERO_RESULTS''
         then Inl (PlacesApiError (''Google Places API error: '' @ nearby_status nearbyData))
         else if nearby_status nearbyData = ''ZERO_RESULTS'' then Inr []
         else Inr (filter_Boolean (map (place_restaurant env)
                 (case nearby_results nearbyData of None \<Rightarrow> [] | Some ps \<Rightarrow> ps))))"
  using assms by (simp add: getNearbyRestaurants_def Let_def split: option.splits)

lemma ex_env_result:
  "getNearbyRestaurants ex_env HILTON_LAT HILTON_LNG (Some 3200) =
     Inr [ex_restaurant ''r1'' ''Red Iguana'', ex_restaurant ''r2'' ''Takashi'']"
  by code_simp

text \<open>
  Claim C7, as stated, fails in its ``exactly when'': with status OK and one result whose
  details call fails, the function also returns the empty list without error.
\<close>

theorem getNearbyRestaurants_empty_counterexample:
  "nearby_status (nearbySearch ex_env_no_details HILTON_LAT HILTON_LNG 1600) = ''OK'' \<and>
   nearby_results (nearbySearch ex_env_no_details HILTON_LAT HILTON_LNG 1600) =
     Some [\<lparr>place_id = ''r0''\<rparr>] \<and>
   getNearbyRestaurants ex_env_no_details HILTON_LAT HILTON_LNG None = Inr []"
  by (simp add: getNearbyRestaurants_def ex_env_no_details_def place_restaurant_def Let_def)

text \<open>
  Claim C7, amended. With the API key set and every request answered: a response with
  status \<^verbatim>\<open>ZERO_RESULTS\<close>, or \<^verbatim>\<open>OK\<close> without results, gives the empty list without error;
  the empty list is returned exactly when the status is \<^verbatim>\<open>ZERO_RESULTS\<close>, or \<^verbatim>\<open>OK\<close> and
  no result has a successful details call; and for every status other than \<^verbatim>\<open>OK\<close> and
  \<^verbatim>\<open>ZERO_RESULTS\<close> an error is thrown, which carries that status.
\<close>

theorem getNearbyRestaurants_status:
  assumes key: "GOOGLE_PLACES_API_KEY env = Some k" "k \<noteq> []"
    and nd: "nearbyData = nearbySearch env qlat qlng (case radius_arg of None \<Rightarrow> 1600 | Some r \<Rightarrow> r)"
  shows "(nearby_status nearbyData = ''ZERO_RESULTS'' \<or>
          nearby_status nearbyData = ''OK'' \<and>
            (nearby_results nearbyData = None \<or> nearby_results nearbyData = Some [])
          \<longrightarrow> getNearbyRestaurants env qlat qlng radius_arg = Inr []) \<and>
         (getNearbyRestaurants env qlat qlng radius_arg = Inr [] \<longleftrightarrow>
            nearby_status nearbyData = ''ZERO_RESULTS'' \<or>
            nearby_status nearbyData = ''OK'' \<and>
              (\<forall>ps. nearby_results nearbyData = Some ps \<longrightarrow> (\<forall>p\<in>set ps. \<not> details_ok env p))) \<and>
         (nearby_status nearbyData \<noteq> ''OK'' \<and> nearby_status nearbyData \<noteq> ''ZERO_RESULTS'' \<longrightarrow>
            getNearbyRestaurants env qlat qlng radius_arg =
              Inl (PlacesApiError (''Google Places API error: '' @ nearby_status nearbyData)))"
proof -
  let ?st = "nearby_status nearbyData"
  let ?places = "case nearby_results nearbyData of None \<Rightarrow> [] | Some ps \<Rightarrow> ps"
  have eq: "getNearbyRestaurants env qlat qlng radius_arg =
     (if ?st \<noteq> ''OK'' \<and> ?st \<noteq> ''ZERO_RESULTS''
      then Inl (PlacesApiError (''Google Places API error: '' @ ?st))
      else if ?st = ''ZERO_RESULTS'' then Inr []
      else Inr (filter_Boolean (map (place_restaurant env) ?places)))"
    unfolding getNearbyRestaurants_cases[OF key] nd[symmetric] Let_def ..
  have all: "(\<forall>p\<in>set ?places. \<not> details_ok env p) \<longleftrightarrow>
      (\<forall>ps. nearby_results nearbyData = Some ps \<longrightarrow> (\<forall>p\<in>set ps. \<not> details_ok env p))"
    by (cases "nearby_results nearbyData") auto
  have empty: "filter_Boolean (map (place_restaurant env) ps) = [] \<longleftrightarrow>
      (\<forall>p\<in>set ps. \<not> details_ok env p)" for ps
    by (simp add: filter_Boolean_Nil_iff place_restaurant_None_iff)
  show ?thesis
    unfolding eq all[symmetric]
    by (cases "nearby_results nearbyData") (auto simp: empty)
qed

theorem getNearbyRestaurants_status_witness:
  "getNearbyRestaurants ex_env_zero HILTON_LAT HILTON_LNG (Some 3200) = Inr [] \<and>
   getNearbyRestaurants ex_env_no_details HILTON_LAT HILTON_LNG (Some 3200) = Inr [] \<and>
   getNearbyRestaurants ex_env_denied HILTON_LAT HILTON_LNG (Some 3200) =
     Inl (PlacesApiError ''Google Places API error: REQUEST_DENIED'') \<and>
   GOOGLE_PLACES_API_KEY ex_env_zero = Some ''key'' \<and>
   nearby_status (nearbySearch ex_env_zero HILTON_LAT HILTON_LNG 3200) = ''ZERO_RESULTS'' \<and>
   nearby_status (nearbySearch ex_env_no_details HILTON_LAT HILTON_LNG 3200) = ''OK'' \<and>
   nearby_status (nearbySearch ex_env_denied HILTON_LAT HILTON_LNG 3200) = ''REQUEST_DENIED''"
proof -
  have k: "GOOGLE_PLACES_API_KEY ex_env_zero = Some ''key''"
    "GOOGLE_PLACES_API_KEY ex_env_no_details = Some ''key''"
    "GOOGLE_PLACES_API_KEY ex_env_denied = Some ''key''" "''key'' \<noteq> []"
    by (simp_all add: ex_env_zero_def ex_env_no_details_def ex_env_denied_def)
  have z: "nearby_status (nearbySearch ex_env_zero HILTON_LAT HILTON_LNG 3200) = ''ZERO_RESULTS''"
    by (simp add: ex_env_zero_def)
  have n: "nearby_status (nearbySearch ex_env_no_details HILTON_LAT HILTON_LNG 3200) = ''OK''"
    "nearby_results (nearbySearch ex_env_no_details HILTON_LAT HILTON_LNG 3200) =
       Some [\<lparr>place_id = ''r0''\<rparr>]"
    "\<not> details_ok ex_env_no_details \<lparr>place_id = ''r0''\<rparr>"
    by (simp_all add: ex_env_no_details_def details_ok_def)
  have d: "nearby_status (nearbySearch ex_env_denied HILTON_LAT HILTON_LNG 3200) = ''REQUEST_DENIED''"
    by (simp add: ex_env_denied_def)
  note t = getNearbyRestaurants_status[where radius_arg = "Some 3200" and qlat = HILTON_LAT and qlng = HILTON_LNG, OF _ _ refl, unfolded option.case]
  have 1: "getNearbyRestaurants ex_env_zero HILTON_LAT HILTON_LNG (Some 3200) = Inr []"
    using t[OF k(1) k(4)] z by blast
  have 2: "getNearbyRestaurants ex_env_no_details HILTON_LAT HILTON_LNG (Some 3200) = Inr []"
    using t[OF k(2) k(4)] n by simp
  have 3: "getNearbyRestaurants ex_env_denied HILTON_LAT HILTON_LNG (Some 3200) =
     Inl (PlacesApiError ''Google Places API error: REQUEST_DENIED'')"
    using t[OF k(3) k(4)] d by simp
  from 1 2 3 k z n d show ?thesis by simp
qed

text \<open>
  Claim C8. With the API key set and a nearby response of status \<^verbatim>\<open>OK\<close>, the function
  returns without error, and what it returns is: for each place whose details call
  succeeded, in order, the restaurant built from those details; a place whose details call
  failed contributes nothing.
\<close>

theorem getNearbyRestaurants_drops_failed:
  assumes key: "GOOGLE_PLACES_API_KEY env = Some k" "k \<noteq> []"
    and ok: "nearby_status (nearbySearch env qlat qlng (case radius_arg of None \<Rightarrow> 1600 | Some r \<Rightarrow> r)) = ''OK''"
    and res: "nearby_results (nearbySearch env qlat qlng (case radius_arg of None \<Rightarrow> 1600 | Some r \<Rightarrow> r)) = Some places"
  shows "\<exists>rs. getNearbyRestaurants env qlat qlng radius_arg = Inr rs \<and>
           map Some rs = map (place_restaurant env) (filter (details_ok env) places) \<and>
           length rs = length (filter (details_ok env) places)"
proof -
  let ?rs = "filter_Boolean (map (place_restaurant env) places)"
  have 1: "getNearbyRestaurants env qlat qlng radius_arg = Inr ?rs"
    unfolding getNearbyRestaurants_cases[OF key] Let_def using ok res by simp
  have 2: "map Some ?rs = map (place_restaurant env) (filter (details_ok env) places)"
  proof -
    have "(\<lambda>p. place_restaurant env p \<noteq> None) = details_ok env"
      by (rule ext) (simp add: place_restaurant_None_iff)
    then show ?thesis
      by (simp add: map_Some_filter_Boolean filter_map o_def)
  qed
  from 2 have "length (map Some ?rs) = length (map (place_restaurant env) (filter (details_ok env) places))"
    by simp
  then have 3: "length ?rs = length (filter (details_ok env) places)" by simp
  from 1 2 3 show ?thesis by blast
qed

theorem getNearbyRestaurants_drops_failed_witness:
  "GOOGLE_PLACES_API_KEY ex_env = Some ''key'' \<and>
   nearby_status (nearbySearch ex_env HILTON_LAT HILTON_LNG 3200) = ''OK'' \<and>
   nearby_results (nearbySearch ex_env HILTON_LAT HILTON_LNG 3200) =
     Some [\<lparr>place_id = ''r0''\<rparr>, \<lparr>place_id = ''r1''\<rparr>, \<lparr>place_id = ''r2''\<rparr>] \<and>
   filter (details_ok ex_env) [\<lparr>place_id = ''r0''\<rparr>, \<lparr>place_id = ''r1''\<rparr>, \<lparr>place_id = ''r2''\<rparr>] =
     [\<lparr>place_id = ''r1''\<rparr>, \<lparr>place_id = ''r2''\<rparr>] \<and>
   getNearbyRestaurants ex_env HILTON_LAT HILTON_LNG (Some 3200) =
     Inr [ex_restaurant ''r1'' ''Red Iguana'', ex_restaurant ''r2'' ''Takashi''] \<and>
   (\<exists>rs. getNearbyRestaurants ex_env HILTON_LAT HILTON_LNG (Some 3200) = Inr rs \<and>
         map Some rs = [place_restaurant ex_env \<lparr>place_id = ''r1''\<rparr>,
                        place_restaurant ex_env \<lparr>place_id = ''r2''\<rparr>] \<and>
         length rs = 2)"
proof -
  have k: "GOOGLE_PLACES_API_KEY ex_env = Some ''key''" "''key'' \<noteq> []"
    by (simp_all add: ex_env_def)
  have ok: "nearby_status (nearbySearch ex_env HILTON_LAT HILTON_LNG
      (case Some 3200 of None \<Rightarrow> 1600 | Some r \<Rightarrow> r)) = ''OK''"
    by (simp add: ex_env_def)
  have res: "nearby_results (nearbySearch ex_env HILTON_LAT HILTON_LNG
      (case Some 3200 of None \<Rightarrow> 1600 | Some r \<Rightarrow> r)) =
       Some [\<lparr>place_id = ''r0''\<rparr>, \<lparr>place_id = ''r1''\<rparr>, \<lparr>place_id = ''r2''\<rparr>]"
    by (simp add: ex_env_def)
  have f: "filter (details_ok ex_env) [\<lparr>place_id = ''r0''\<rparr>, \<lparr>place_id = ''r1''\<rparr>, \<lparr>place_id = ''r2''\<rparr>] =
      [\<lparr>place_id = ''r1''\<rparr>, \<lparr>place_id = ''r2''\<rparr>]"
    by (simp add: details_ok_def ex_env_def)
  from getNearbyRestaurants_drops_failed[OF k ok res] f k ok res ex_env_result
  show ?thesis by simp
qed

section \<open>Properties of the restaurant service\<close>

lemma toRadians_minus: "toRadians (a - b) = - toRadians (b - a)"
proof -
  have "(a - b) * (pi / 180) = - ((b - a) * (pi / 180))"
    by (simp only: mult_minus_left[symmetric] minus_diff_eq)
  then show ?thesis by (simp only: toRadians_def)
qed

lemma sin_half_sq_sym: "sin (toRadians (a - b) / 2) * sin (toRadians (a - b) / 2) =
    sin (toRadians (b - a) / 2) * sin (toRadians (b - a) / 2)"
proof -
  have "toRadians (a - b) / 2 = - (toRadians (b - a) / 2)"
    by (simp add: toRadians_minus[of a b])
  then show ?thesis by (simp only: sin_minus mult_minus_left mult_minus_right minus_minus)
qed

text \<open>
  Claim C9. \<open>calculateDistance\<close> is symmetric in its two points and is 0 for identical
  points, for the real-number arithmetic of the model.
\<close>

theorem calculateDistance_symmetric_zero:
  "calculateDistance lat1 lng1 lat2 lng2 = calculateDistance lat2 lng2 lat1 lng1 \<and>
   calculateDistance lat1 lng1 lat1 lng1 = 0"
proof
  let ?a = "\<lambda>p1 q1 p2 q2. sin (toRadians (p2 - p1) / 2) * sin (toRadians (p2 - p1) / 2) +
      cos (toRadians p1) * cos (toRadians p2) * sin (toRadians (q2 - q1) / 2) *
        sin (toRadians (q2 - q1) / 2)"
  have "?a lat1 lng1 lat2 lng2 = ?a lat2 lng2 lat1 lng1"
  proof -
    have "cos (toRadians lat1) * cos (toRadians lat2) * sin (toRadians (lng2 - lng1) / 2) *
        sin (toRadians (lng2 - lng1) / 2) =
      cos (toRadians lat2) * cos (toRadians lat1) *
        (sin (toRadians (lng2 - lng1) / 2) * sin (toRadians (lng2 - lng1) / 2))"
      by (simp add: mult_ac)
    also have "\<dots> = cos (toRadians lat2) * cos (toRadians lat1) *
        (sin (toRadians (lng1 - lng2) / 2) * sin (toRadians (lng1 - lng2) / 2))"
      by (simp only: sin_half_sq_sym[of lng2 lng1])
    finally show ?thesis
      by (simp only: sin_half_sq_sym[of lat2 lat1] mult.assoc)
  qed
  then show "calculateDistance lat1 lng1 lat2 lng2 = calculateDistance lat2 lng2 lat1 lng1"
    by (simp only: calculateDistance_def Let_def)
next
  show "calculateDistance lat1 lng1 lat1 lng1 = 0"
    by (simp add: calculateDistance_def Let_def toRadians_def atan2_def toFixed2_def)
qed

lemma fold_counts_other:
  "k \<notin> restaurantId ` set gs \<Longrightarrow>
     fold (\<lambda>group counts. counts(restaurantId group \<mapsto> f group)) gs m k = m k"
  by (induction gs arbitrary: m) auto

lemma getAttendeeCounts_no_group:
  assumes "k \<notin> set (map restaurantId (dinnerGroups s))"
  shows "getAttendeeCounts ids s k = None"
proof -
  from assms have "k \<notin> restaurantId ` set (filter (\<lambda>g. restaurantId g \<in> set ids) (dinnerGroups s))"
    by auto
  from fold_counts_other[OF this] show ?thesis
    by (simp add: getAttendeeCounts_def)
qed

lemma getUserAttendingRestaurant_iff:
  assumes wf: "store_wf s" and one: "length (attendees_of_user uid s) \<le> 1"
  shows "getUserAttendingRestaurant uid s = Some (Some rid) \<longleftrightarrow>
     (\<exists>a\<in>set (attendees s). userId a = uid \<and>
        (\<exists>g\<in>set (dinnerGroups s). group_id g = dinnerGroupId a \<and> restaurantId g = rid))"
proof
  assume "getUserAttendingRestaurant uid s = Some (Some rid)"
  then obtain a g where "find (\<lambda>a. userId a = uid) (attendees s) = Some a"
    and "find (\<lambda>g. group_id g = dinnerGroupId a) (dinnerGroups s) = Some g"
    and "restaurantId g = rid"
    by (auto simp: getUserAttendingRestaurant_def split: option.splits)
  then show "\<exists>a\<in>set (attendees s). userId a = uid \<and>
        (\<exists>g\<in>set (dinnerGroups s). group_id g = dinnerGroupId a \<and> restaurantId g = rid)"
    by (auto dest!: find_Some_mem)
next
  assume "\<exists>a\<in>set (attendees s). userId a = uid \<and>
        (\<exists>g\<in>set (dinnerGroups s). group_id g = dinnerGroupId a \<and> restaurantId g = rid)"
  then obtain a g where a: "a \<in> set (attendees s)" "userId a = uid"
    and g: "g \<in> set (dinnerGroups s)" "group_id g = dinnerGroupId a" "restaurantId g = rid"
    by blast
  from a have ne: "filter (\<lambda>a. userId a = uid) (attendees s) \<noteq> []"
    by (auto simp: filter_empty_conv)
  then obtain a' where f: "find (\<lambda>a. userId a = uid) (attendees s) = Some a'"
    by (cases "find (\<lambda>a. userId a = uid) (attendees s)") (auto simp: find_None_filter)
  from find_Some_filter[OF f] one have "filter (\<lambda>a. userId a = uid) (attendees s) = [a']"
    by (auto simp: attendees_of_user_def)
  then have "set (filter (\<lambda>a. userId a = uid) (attendees s)) = {a'}" by simp
  with a have "a' = a" by auto
  from wf have dg: "distinct (map group_id (dinnerGroups s))" by (simp add: store_wf_def)
  from distinct_map_filter_single[OF dg g(1)] g(2)
  have "filter (\<lambda>h. group_id h = dinnerGroupId a) (dinnerGroups s) = [g]" by simp
  then have "find (\<lambda>h. group_id h = dinnerGroupId a) (dinnerGroups s) = Some g"
    by (cases "find (\<lambda>h. group_id h = dinnerGroupId a) (dinnerGroups s)")
       (auto simp: find_None_filter dest: find_Some_filter)
  with f \<open>a' = a\<close> g(3) show "getUserAttendingRestaurant uid s = Some (Some rid)"
    by (simp add: getUserAttendingRestaurant_def)
qed

lemma cachified_cases:
  "cachified key ttl now cache getFreshValue st =
     (if \<exists>e. cache key = Some e \<and> now \<le> createdTime e + entry_ttl e
      then (Inr (entry_value (the (cache key))), cache, st)
      else (case getFreshValue st of
              (Inl err, st') \<Rightarrow> (Inl err, cache, st')
            | (Inr v, st') \<Rightarrow>
                (Inr v, cache(key \<mapsto> \<lparr>entry_value = v, createdTime = now, entry_ttl = ttl\<rparr>), st')))"
  by (auto simp: cachified_def Let_def split: option.splits)

lemma getAllRestaurantDetails_shape:
  assumes "getAllRestaurantDetails env now qlat qlng uid radius_arg w = (Inr ds, w')"
  shows "\<exists>rs. ds = map (restaurant_details qlat qlng (getUserAttendingRestaurant uid (db w))
                   (getAttendeeCounts (map restaurant_id rs) (db w))) rs \<and>
              db w' = db w \<and>
              lruCache w' (cache_key qlat qlng (case radius_arg of None \<Rightarrow> 1600 | Some r \<Rightarrow> r)) \<noteq> None"
  using assms
  by (auto simp: getAllRestaurantDetails_def Let_def cachified_cases
      split: prod.splits sum.splits if_splits)

lemma restaurant_details_simps:
  "restaurant_id (restaurant_details qlat qlng ua counts r) = restaurant_id r"
  "attendeeCount (restaurant_details qlat qlng ua counts r) =
     (case counts (restaurant_id r) of None \<Rightarrow> 0 | Some n \<Rightarrow> n)"
  "isUserAttending (restaurant_details qlat qlng ua counts r) \<longleftrightarrow> ua = Some (Some (restaurant_id r))"
  by (auto simp: restaurant_details_def split: option.splits)

text \<open>
  Claim C10. In the list \<open>getAllRestaurantDetails\<close> returns, a restaurant without
  DinnerGroup row has attendee count 0; in a well-formed store where the user has at most
  one Attendee row, \<open>isUserAttending\<close> holds exactly for the restaurants whose id is the
  restaurant id of the group of the user's Attendee row; and when the restaurant ids of
  the list are distinct, at most one entry has \<open>isUserAttending\<close>.
\<close>

theorem getAllRestaurantDetails_attendance:
  assumes "getAllRestaurantDetails env now qlat qlng uid radius_arg w = (Inr ds, w')"
  shows "(\<forall>d\<in>set ds. restaurant_id d \<notin> set (map restaurantId (dinnerGroups (db w))) \<longrightarrow>
            attendeeCount d = 0) \<and>
         (store_wf (db w) \<and> length (attendees_of_user uid (db w)) \<le> 1 \<longrightarrow>
            (\<forall>d\<in>set ds. isUserAttending d \<longleftrightarrow>
               (\<exists>a\<in>set (attendees (db w)). userId a = uid \<and>
                  (\<exists>g\<in>set (dinnerGroups (db w)).
                     group_id g = dinnerGroupId a \<and> restaurantId g = restaurant_id d)))) \<and>
         (distinct (map restaurant_id ds) \<longrightarrow> length (filter isUserAttending ds) \<le> 1)"
proof -
  from getAllRestaurantDetails_shape[OF assms] obtain rs where
    ds: "ds = map (restaurant_details qlat qlng (getUserAttendingRestaurant uid (db w))
                   (getAttendeeCounts (map restaurant_id rs) (db w))) rs" by blast
  let ?ua = "getUserAttendingRestaurant uid (db w)"
  have att: "isUserAttending d \<longleftrightarrow> ?ua = Some (Some (restaurant_id d))" if "d \<in> set ds" for d
    using that by (auto simp: ds restaurant_details_simps)
  have 1: "\<forall>d\<in>set ds. restaurant_id d \<notin> set (map restaurantId (dinnerGroups (db w))) \<longrightarrow>
            attendeeCount d = 0"
    by (auto simp: ds restaurant_details_simps getAttendeeCounts_no_group)
  have 2: "store_wf (db w) \<and> length (attendees_of_user uid (db w)) \<le> 1 \<longrightarrow>
            (\<forall>d\<in>set ds. isUserAttending d \<longleftrightarrow>
               (\<exists>a\<in>set (attendees (db w)). userId a = uid \<and>
                  (\<exists>g\<in>set (dinnerGroups (db w)).
                     group_id g = dinnerGroupId a \<and> restaurantId g = restaurant_id d)))"
    using att getUserAttendingRestaurant_iff[of "db w" uid] by simp
  have 3: "distinct (map restaurant_id ds) \<longrightarrow> length (filter isUserAttending ds) \<le> 1"
  proof
    assume d: "distinct (map restaurant_id ds)"
    show "length (filter isUserAttending ds) \<le> 1"
    proof (cases ?ua)
      case None
      with att have "filter isUserAttending ds = []" by (auto simp: filter_empty_conv)
      then show ?thesis by simp
    next
      case (Some v)
      show ?thesis
      proof (cases v)
        case None
        with Some att have "filter isUserAttending ds = []" by (auto simp: filter_empty_conv)
        then show ?thesis by simp
      next
        case (Some rid)
        with \<open>?ua = Some v\<close> att
        have "filter isUserAttending ds = filter (\<lambda>d. restaurant_id d = rid) ds"
          by (intro filter_cong) auto
        with distinct_map_filter_le1[OF d, of rid] show ?thesis by simp
      qed
    qed
  qed
  from 1 2 3 show ?thesis by blast
qed

lemma ex_key: "cache_key HILTON_LAT HILTON_LNG 3200 = ''restaurants-40.7596--111.8867-3200''"
  by code_simp

lemma ex_key_nearby:
  "cache_key ex_lat_nearby HILTON_LNG 3200 = ''restaurants-40.75960001--111.8867-3200''"
  by code_simp

lemma ex_round: "round_to 4 HILTON_LAT = round_to 4 ex_lat_nearby"
  by (simp add: round_to_def HILTON_LAT_def ex_lat_nearby_def)

lemma ex_upsert:
  "upsert_all [ex_restaurant ''r1'' ''Red Iguana'', ex_restaurant ''r2'' ''Takashi''] [] =
     ([ex_restaurant ''r1'' ''Red Iguana'', ex_restaurant ''r2'' ''Takashi''],
      [ex_restaurant ''r1'' ''Red Iguana'', ex_restaurant ''r2'' ''Takashi''])"
  by (simp add: restaurant_upsert_def ex_restaurant_def)

lemma ex_user: "getUserAttendingRestaurant ''u1'' ex_two_joined = Some (Some ''r1'')"
  by (simp add: getUserAttendingRestaurant_def ex_two_joined_def)

lemma ex_counts:
  "getAttendeeCounts [''r1'', ''r2''] ex_two_joined ''r1'' = Some 2"
  "getAttendeeCounts [''r1'', ''r2''] ex_two_joined ''r2'' = None"
  by (simp_all add: getAttendeeCounts_def ex_two_joined_def attendee_count_def)

lemma ex_map_details:
  "map (restaurant_details HILTON_LAT HILTON_LNG (Some (Some ''r1''))
          (getAttendeeCounts [''r1'', ''r2''] ex_two_joined))
     [ex_restaurant ''r1'' ''Red Iguana'', ex_restaurant ''r2'' ''Takashi''] = ex_details"
  by (simp add: restaurant_details_def ex_counts ex_restaurant_def ex_details_def)

lemma ex_ids:
  "map restaurant_id [ex_restaurant ''r1'' ''Red Iguana'', ex_restaurant ''r2'' ''Takashi''] =
     [''r1'', ''r2'']"
  by (simp add: ex_restaurant_def)

lemma ex_fetch:
  "fetchAndUpsertRestaurants ex_env HILTON_LAT HILTON_LNG 3200 [] =
     (Inr [ex_restaurant ''r1'' ''Red Iguana'', ex_restaurant ''r2'' ''Takashi''],
      [ex_restaurant ''r1'' ''Red Iguana'', ex_restaurant ''r2'' ''Takashi''])"
  by (simp add: fetchAndUpsertRestaurants_def ex_env_result ex_upsert del: upsert_all.simps)

lemma ex_first_call:
  "getAllRestaurantDetails ex_env 0 HILTON_LAT HILTON_LNG ''u1'' (Some 3200) ex_world =
     (Inr ex_details, ex_world_cached)"
proof -
  have c: "cachified (cache_key HILTON_LAT HILTON_LNG 3200) RESTAURANT_CACHE_TTL 0 Map.empty
      (fetchAndUpsertRestaurants ex_env HILTON_LAT HILTON_LNG 3200) [] =
     (Inr [ex_restaurant ''r1'' ''Red Iguana'', ex_restaurant ''r2'' ''Takashi''],
      lruCache ex_world_cached,
      [ex_restaurant ''r1'' ''Red Iguana'', ex_restaurant ''r2'' ''Takashi''])"
    by (simp add: cachified_def ex_fetch ex_key ex_world_cached_def)
  have w: "ex_world\<lparr>restaurantRows :=
        [ex_restaurant ''r1'' ''Red Iguana'', ex_restaurant ''r2'' ''Takashi''],
      lruCache := lruCache ex_world_cached\<rparr> = ex_world_cached"
    by (simp add: ex_world_def ex_world_cached_def)
  have d: "db ex_world = ex_two_joined" "restaurantRows ex_world = []"
    "lruCache ex_world = Map.empty" "db ex_world_cached = ex_two_joined"
    by (simp_all add: ex_world_def ex_world_cached_def)
  show ?thesis
    unfolding getAllRestaurantDetails_def Let_def option.case d c prod.case sum.case w ex_ids
      ex_user ex_map_details ..
qed

lemma ex_second_call_same:
  "getAllRestaurantDetails ex_env_zero 1000 HILTON_LAT HILTON_LNG ''u1'' (Some 3200) ex_world_cached =
     (Inr ex_details, ex_world_cached)"
proof -
  have c: "cachified (cache_key HILTON_LAT HILTON_LNG 3200) RESTAURANT_CACHE_TTL 1000
      (lruCache ex_world_cached)
      (fetchAndUpsertRestaurants ex_env_zero HILTON_LAT HILTON_LNG 3200)
      (restaurantRows ex_world_cached) =
     (Inr [ex_restaurant ''r1'' ''Red Iguana'', ex_restaurant ''r2'' ''Takashi''],
      lruCache ex_world_cached, restaurantRows ex_world_cached)"
    by (simp add: cachified_def ex_key ex_world_cached_def RESTAURANT_CACHE_TTL_def)
  have w: "ex_world_cached\<lparr>restaurantRows := restaurantRows ex_world_cached,
      lruCache := lruCache ex_world_cached\<rparr> = ex_world_cached"
    by simp
  have d: "db ex_world_cached = ex_two_joined"
    by (simp add: ex_world_cached_def)
  show ?thesis
    unfolding getAllRestaurantDetails_def Let_def option.case c prod.case sum.case w d ex_ids
      ex_user ex_map_details ..
qed

lemma ex_zero_result:
  "getNearbyRestaurants ex_env_zero qlat qlng (Some 3200) = Inr []"
  by (simp add: getNearbyRestaurants_def ex_env_zero_def Let_def)

theorem getAllRestaurantDetails_attendance_witness:
  "getAllRestaurantDetails ex_env 0 HILTON_LAT HILTON_LNG ''u1'' (Some 3200) ex_world =
     (Inr ex_details, ex_world_cached) \<and>
   store_wf (db ex_world) \<and> length (attendees_of_user ''u1'' (db ex_world)) \<le> 1 \<and>
   distinct (map restaurant_id ex_details) \<and>
   ex_details ! 1 \<in> set ex_details \<and>
   restaurant_id (ex_details ! 1) \<notin> set (map restaurantId (dinnerGroups (db ex_world))) \<and>
   attendeeCount (ex_details ! 1) = 0 \<and>
   length (filter isUserAttending ex_details) \<le> 1 \<and>
   list_all (\<lambda>d. isUserAttending d \<longleftrightarrow>
       (\<exists>a\<in>set (attendees (db ex_world)). userId a = ''u1'' \<and>
          (\<exists>g\<in>set (dinnerGroups (db ex_world)).
             group_id g = dinnerGroupId a \<and> restaurantId g = restaurant_id d))) ex_details"
proof -
  have wf: "store_wf (db ex_world) \<and> length (attendees_of_user ''u1'' (db ex_world)) \<le> 1"
    by (simp add: ex_world_def ex_two_joined_def store_wf_def attendees_of_user_def)
  have d: "distinct (map restaurant_id ex_details)"
    by (simp add: ex_details_def)
  have m: "ex_details ! 1 \<in> set ex_details"
    "restaurant_id (ex_details ! 1) \<notin> set (map restaurantId (dinnerGroups (db ex_world)))"
    by (simp_all add: ex_details_def ex_world_def ex_two_joined_def)
  from getAllRestaurantDetails_attendance[OF ex_first_call] wf d m ex_first_call
  show ?thesis by (simp add: list_all_iff)
qed

text \<open>
  Claim C3, as stated, fails: the key is built from the location as given, not from a
  rounded one. Two calls one second apart, with the same radius and with latitudes that
  agree when rounded to four decimals, use different keys: the second call does not get the
  cached list, it asks the provider again.
\<close>

theorem cache_key_not_rounded_counterexample:
  "round_to 4 HILTON_LAT = round_to 4 ex_lat_nearby \<and>
   spec_cache_key 4 HILTON_LAT HILTON_LNG 3200 = spec_cache_key 4 ex_lat_nearby HILTON_LNG 3200 \<and>
   cache_key HILTON_LAT HILTON_LNG 3200 = ''restaurants-40.7596--111.8867-3200'' \<and>
   cache_key ex_lat_nearby HILTON_LNG 3200 = ''restaurants-40.75960001--111.8867-3200'' \<and>
   getAllRestaurantDetails ex_env 0 HILTON_LAT HILTON_LNG ''u1'' (Some 3200) ex_world =
     (Inr ex_details, ex_world_cached) \<and>
   getAllRestaurantDetails ex_env_zero 1000 ex_lat_nearby HILTON_LNG ''u1'' (Some 3200)
       ex_world_cached =
     (Inr [], ex_world_cached\<lparr>lruCache := (lruCache ex_world_cached)
        (''restaurants-40.75960001--111.8867-3200'' \<mapsto>
           \<lparr>entry_value = [], createdTime = 1000, entry_ttl = RESTAURANT_CACHE_TTL\<rparr>)\<rparr>)"
proof -
  have "getAllRestaurantDetails ex_env_zero 1000 ex_lat_nearby HILTON_LNG ''u1'' (Some 3200)
       ex_world_cached =
     (Inr [], ex_world_cached\<lparr>lruCache := (lruCache ex_world_cached)
        (''restaurants-40.75960001--111.8867-3200'' \<mapsto>
           \<lparr>entry_value = [], createdTime = 1000, entry_ttl = RESTAURANT_CACHE_TTL\<rparr>)\<rparr>)"
  proof -
    have f: "fetchAndUpsertRestaurants ex_env_zero ex_lat_nearby HILTON_LNG 3200 rows =
        (Inr [], rows)" for rows
      by (simp add: fetchAndUpsertRestaurants_def ex_zero_result)
    have c: "cachified (cache_key ex_lat_nearby HILTON_LNG 3200) RESTAURANT_CACHE_TTL 1000
        (lruCache ex_world_cached)
        (fetchAndUpsertRestaurants ex_env_zero ex_lat_nearby HILTON_LNG 3200)
        (restaurantRows ex_world_cached) =
       (Inr [], (lruCache ex_world_cached)
          (''restaurants-40.75960001--111.8867-3200'' \<mapsto>
             \<lparr>entry_value = [], createdTime = 1000, entry_ttl = RESTAURANT_CACHE_TTL\<rparr>),
        restaurantRows ex_world_cached)"
      by (simp add: cachified_def f ex_key_nearby ex_world_cached_def)
    show ?thesis
      unfolding getAllRestaurantDetails_def Let_def option.case c prod.case sum.case
      by simp
  qed
  with ex_round ex_key ex_key_nearby ex_first_call show ?thesis
    by (simp add: spec_cache_key_def)
qed

lemma getAllRestaurantDetails_miss:
  assumes first: "getAllRestaurantDetails env now qlat qlng uid radius_arg w = (Inr ds, w')"
    and miss: "lruCache w (cache_key qlat qlng (case radius_arg of None \<Rightarrow> 1600 | Some r \<Rightarrow> r)) = None"
  shows "\<exists>rs. lruCache w' (cache_key qlat qlng (case radius_arg of None \<Rightarrow> 1600 | Some r \<Rightarrow> r)) =
              Some \<lparr>entry_value = rs, createdTime = now, entry_ttl = RESTAURANT_CACHE_TTL\<rparr> \<and>
            ds = map (restaurant_details qlat qlng (getUserAttendingRestaurant uid (db w))
                   (getAttendeeCounts (map restaurant_id rs) (db w))) rs \<and>
            db w' = db w"
  using first miss
  by (auto simp: getAllRestaurantDetails_def Let_def cachified_def
      split: prod.splits sum.splits)

lemma getAllRestaurantDetails_hit:
  assumes e: "lruCache w (cache_key qlat qlng (case radius_arg of None \<Rightarrow> 1600 | Some r \<Rightarrow> r)) =
       Some \<lparr>entry_value = rs, createdTime = c, entry_ttl = ttl\<rparr>"
    and fresh: "now \<le> c + ttl"
  shows "getAllRestaurantDetails env now qlat qlng uid radius_arg w =
     (Inr (map (restaurant_details qlat qlng (getUserAttendingRestaurant uid (db w))
                   (getAttendeeCounts (map restaurant_id rs) (db w))) rs), w)"
  using e fresh
  by (simp add: getAllRestaurantDetails_def Let_def cachified_def)

text \<open>
  Claim C3, amended. The results are cached under a key made of the latitude, longitude
  and radius as given, for 24 hours: after a call that fetched from the provider, a call
  with the same latitude, longitude and radius no later than 24 hours after it returns the
  cached restaurants without asking the provider and leaves the cache and the Restaurant
  table as they are, whatever the provider would answer now.
\<close>

theorem cache_hit_same_arguments:
  assumes first: "getAllRestaurantDetails env1 t1 qlat qlng uid radius_arg w = (Inr ds1, w1)"
    and miss: "lruCache w (cache_key qlat qlng (case radius_arg of None \<Rightarrow> 1600 | Some r \<Rightarrow> r)) = None"
    and within: "t2 \<le> t1 + RESTAURANT_CACHE_TTL"
  shows "getAllRestaurantDetails env2 t2 qlat qlng uid radius_arg w1 = (Inr ds1, w1) \<and>
         (\<exists>ds2. getAllRestaurantDetails env2 t2 qlat qlng uid2 radius_arg w1 = (Inr ds2, w1) \<and>
                map restaurant_id ds2 = map restaurant_id ds1) \<and>
         RESTAURANT_CACHE_TTL = 24 * 60 * 60 * 1000"
proof -
  from getAllRestaurantDetails_miss[OF first miss] obtain rs where
    e: "lruCache w1 (cache_key qlat qlng (case radius_arg of None \<Rightarrow> 1600 | Some r \<Rightarrow> r)) =
         Some \<lparr>entry_value = rs, createdTime = t1, entry_ttl = RESTAURANT_CACHE_TTL\<rparr>"
    and ds1: "ds1 = map (restaurant_details qlat qlng (getUserAttendingRestaurant uid (db w))
                   (getAttendeeCounts (map restaurant_id rs) (db w))) rs"
    and db: "db w1 = db w" by blast
  note hit = getAllRestaurantDetails_hit[OF e within]
  have 1: "getAllRestaurantDetails env2 t2 qlat qlng uid radius_arg w1 = (Inr ds1, w1)"
    by (simp add: hit ds1 db)
  have 2: "\<exists>ds2. getAllRestaurantDetails env2 t2 qlat qlng uid2 radius_arg w1 = (Inr ds2, w1) \<and>
                map restaurant_id ds2 = map restaurant_id ds1"
    by (simp add: hit ds1 restaurant_details_simps o_def)
  have 3: "RESTAURANT_CACHE_TTL = 24 * 60 * 60 * 1000"
    by (simp add: RESTAURANT_CACHE_TTL_def)
  from 1 2 3 show ?thesis by blast
qed

theorem cache_hit_same_arguments_witness:
  "getAllRestaurantDetails ex_env 0 HILTON_LAT HILTON_LNG ''u1'' (Some 3200) ex_world =
     (Inr ex_details, ex_world_cached) \<and>
   lruCache ex_world (cache_key HILTON_LAT HILTON_LNG 3200) = None \<and>
   (1000::nat) \<le> 0 + RESTAURANT_CACHE_TTL \<and>
   getAllRestaurantDetails ex_env_zero 1000 HILTON_LAT HILTON_LNG ''u1'' (Some 3200) ex_world_cached =
     (Inr ex_details, ex_world_cached)"
proof -
  have miss: "lruCache ex_world (cache_key HILTON_LAT HILTON_LNG
      (case Some 3200 of None \<Rightarrow> 1600 | Some r \<Rightarrow> r)) = None"
    by (simp add: ex_world_def)
  have within: "(1000::nat) \<le> 0 + RESTAURANT_CACHE_TTL"
    by (simp add: RESTAURANT_CACHE_TTL_def)
  from cache_hit_same_arguments[OF ex_first_call miss within, of ex_env_zero]
    ex_first_call miss within
  show ?thesis by simp
qed

end
